theory Spec2Isabelle
  imports Complex_Main
begin

section \<open>Errors\<close>

text \<open>
  Every exception the embedded code can raise is a value.  The first four are the
  messages of the \<^verbatim>\<open>raise\<close> statements of \<^verbatim>\<open>beamcon_3D.py\<close>; the others are
  the Python and numpy exceptions of the operations it uses, and \<^verbatim>\<open>BeamError\<close>, the
  exception of \<^verbatim>\<open>radio_beam\<close> for a beam that cannot be deconvolved.
\<close>

datatype error =
    NoFilesFound
  | UnequalChannelCount
  | BmajTooSmall
  | BminTooSmall
  | SameFileError
  | SpecialFileError
  | OSError
  | ValueError
  | IndexError
  | BeamError
  | LibraryError

section \<open>Chunk planner: \<^verbatim>\<open>cpu_to_use\<close>\<close>

text \<open>
  \<^verbatim>\<open>
  def cpu_to_use(max_cpu, count):
      factors = []
      for i in range(1, count + 1):
          if count % i == 0:
              factors.append(i)
      factors = np.array(factors)
      return max(factors[factors <= max_cpu])
  \<close>
  Python integers are unbounded, so both arguments are \<^typ>\<open>int\<close>.  The loop collects
  the values of \<^verbatim>\<open>range(1, count + 1)\<close> that divide \<^verbatim>\<open>count\<close>; the boolean index keeps
  those not above \<^verbatim>\<open>max_cpu\<close>; \<^verbatim>\<open>max\<close> of an empty selection raises \<^verbatim>\<open>ValueError\<close>.
\<close>

definition factors_of :: "int \<Rightarrow> int list" where
  "factors_of count = filter (\<lambda>i. count mod i = 0) [1..count]"

fun py_max :: "int list \<Rightarrow> error + int" where
  "py_max [] = Inl ValueError"
| "py_max (x # xs) = Inr (fold max xs x)"

definition cpu_to_use :: "int \<Rightarrow> int \<Rightarrow> error + int" where
  "cpu_to_use max_cpu count = py_max (filter (\<lambda>f. f \<le> max_cpu) (factors_of count))"

text \<open>
  Lines 322--323 of \<^verbatim>\<open>main\<close>: the chunk width and the number of chunks,
  \<^verbatim>\<open>width = cpu_to_use(width_max, cube.shape[0])\<close> and
  \<^verbatim>\<open>n_chunks = cube.shape[0]//width\<close>.
\<close>

definition chunk_plan :: "int \<Rightarrow> int \<Rightarrow> error + (int \<times> int)" where
  "chunk_plan width_max count =
     (case cpu_to_use width_max count of
        Inl e \<Rightarrow> Inl e
      | Inr width \<Rightarrow> Inr (width, count div width))"

text \<open>Primality of a channel count, by trial division.\<close>

definition is_prime :: "int \<Rightarrow> bool" where
  "is_prime n \<longleftrightarrow> 1 < n \<and> (\<forall>d \<in> {2..<n}. \<not> d dvd n)"

section \<open>Floating-point values, images and beams\<close>

text \<open>
  A \<^verbatim>\<open>float64\<close> is either NaN or a number.  Numbers are idealised as reals (no rounding,
  no infinities); the claims verified below depend only on how NaN propagates and on
  comparisons, which are exact.  \<^verbatim>\<open>x * nan\<close> is NaN for every \<^verbatim>\<open>x\<close>, and every ordering
  comparison with NaN is false.
\<close>

datatype flt = NaN | Val real

fun fmul :: "flt \<Rightarrow> flt \<Rightarrow> flt" where
  "fmul (Val a) (Val b) = Val (a * b)"
| "fmul _ _ = NaN"

fun flt_less :: "flt \<Rightarrow> flt \<Rightarrow> bool" where
  "flt_less (Val a) (Val b) = (a < b)"
| "flt_less _ _ = False"

text \<open>
  \<^verbatim>\<open>
  def round_up(n, decimals=0):
      multiplier = 10 ** decimals
      return np.ceil(n * multiplier) / multiplier
  \<close>
  \<^verbatim>\<open>main\<close> calls it with the default \<^verbatim>\<open>decimals=0\<close> only, where the multiplier is 1 and
  the result is the exact ceiling.  For other values of \<^verbatim>\<open>decimals\<close> the product is
  rounded in the program and exact in the model (\<^verbatim>\<open>round_up(0.07, 2)\<close> is 0.08 in the
  program); no statement below uses them.
\<close>

definition round_up :: "flt \<Rightarrow> nat \<Rightarrow> flt" where
  "round_up n decimals =
     (case n of
        NaN \<Rightarrow> NaN
      | Val r \<Rightarrow> Val (of_int \<lceil>r * 10 ^ decimals\<rceil> / 10 ^ decimals))"

text \<open>
  A 2-D image is a list of rows of pixels; its shape is the list of its row lengths.
  \<^verbatim>\<open>image * x\<close> multiplies every pixel by the scalar \<^verbatim>\<open>x\<close>.
\<close>

type_synonym image = "flt list list"

definition img_shape :: "image \<Rightarrow> nat list" where
  "img_shape im = map length im"

definition img_mul :: "image \<Rightarrow> flt \<Rightarrow> image" where
  "img_mul im x = map (map (\<lambda>p. fmul p x)) im"

definition all_nan :: "image \<Rightarrow> bool" where
  "all_nan im \<longleftrightarrow> (\<forall>row \<in> set im. \<forall>p \<in> set row. p = NaN)"

text \<open>
  A beam: major and minor axis in arcseconds, position angle in degrees, as the
  \<^verbatim>\<open>radio_beam\<close> objects of the program carry them.
\<close>

record beam =
  major :: flt
  minor :: flt
  pa :: flt

definition nan_beam :: beam where
  "nan_beam = \<lparr>major = NaN, minor = NaN, pa = NaN\<rparr>"

section \<open>The libraries the program calls\<close>

text \<open>
  The program is glue around \<^verbatim>\<open>radio_beam\<close>, \<^verbatim>\<open>au2\<close>, \<^verbatim>\<open>astropy\<close> and
  \<^verbatim>\<open>scipy\<close>, whose code is not part of it.  Each call into them is a field of the
  record \<open>lib\<close>, a parameter of the model; a library call that raises returns \<open>Inl\<close>.
  \<^item> \<open>largest_beam\<close>: \<^verbatim>\<open>beamlst.largest_beam()\<close>;
  \<^item> \<open>beam_bpa\<close>: the attribute access \<^verbatim>\<open>big_beam.bpa.to(u.deg)\<close>;
  \<^item> \<open>Beam_new\<close>: the constructor \<^verbatim>\<open>Beam(bmaj, bmin, bpa)\<close>;
  \<^item> \<open>deconvolve\<close>: \<^verbatim>\<open>new_beam.deconvolve(oldbeam)\<close>;
  \<^item> \<open>gauss_factor\<close>: the first component of \<^verbatim>\<open>au2.gauss_factor(conbm, beamOrig=oldbeam, dx1=dx, dy1=dy)\<close>;
  \<^item> \<open>isnan_beam\<close>: \<^verbatim>\<open>np.isnan(conbeam)\<close>;
  \<^item> \<open>peak_kernel\<close>: \<^verbatim>\<open>conbeam.as_kernel(dy)\<close> and its array divided by its maximum
    (the value \<^verbatim>\<open>conbm1\<close>);
  \<^item> \<open>convolve_same\<close>: \<^verbatim>\<open>scipy.signal.convolve(image.astype('f8'), conbm1, mode='same')\<close>;
  \<^item> \<open>attach_to_header\<close>: \<^verbatim>\<open>new_beam.attach_to_header(outfh[0].header)\<close>, which raises
    for a beam that a header cannot hold.
\<close>

record lib =
  largest_beam :: "beam list \<Rightarrow> error + beam"
  beam_bpa :: "beam \<Rightarrow> error + flt"
  Beam_new :: "flt \<Rightarrow> flt \<Rightarrow> flt \<Rightarrow> error + beam"
  deconvolve :: "beam \<Rightarrow> beam \<Rightarrow> error + beam"
  gauss_factor :: "beam \<Rightarrow> beam \<Rightarrow> flt \<Rightarrow> flt \<Rightarrow> error + flt"
  isnan_beam :: "beam \<Rightarrow> bool"
  peak_kernel :: "beam \<Rightarrow> flt \<Rightarrow> error + image"
  convolve_same :: "image \<Rightarrow> image \<Rightarrow> error + image"
  attach_to_header :: "beam \<Rightarrow> error + unit"

section \<open>The kernel solver loop: \<^verbatim>\<open>getfacs\<close>\<close>

text \<open>
  \<^verbatim>\<open>
  def getfacs(datadict, new_beam, verbose=False):
      conbms = []
      facs = []
      for oldbeam in datadict['oldbeams']:
          conbm = new_beam.deconvolve(oldbeam)
          fac, amp, outbmaj, outbmin, outbpa = au2.gauss_factor([...conbm...],
              beamOrig=[...oldbeam...], dx1=datadict['dx']..., dy1=datadict['dy']...)
          conbms.append(conbm)
          facs.append(fac)
      return conbms, facs
  \<close>
  There is no \<^verbatim>\<open>try\<close> in the loop: an exception of either library call leaves
  \<^verbatim>\<open>getfacs\<close>.
\<close>

fun getfacs_loop :: "lib \<Rightarrow> beam \<Rightarrow> flt \<Rightarrow> flt \<Rightarrow> beam list \<Rightarrow> error + (beam list \<times> flt list)" where
  "getfacs_loop L new_beam dx1 dy1 [] = Inr ([], [])"
| "getfacs_loop L new_beam dx1 dy1 (oldbeam # rest) =
     (case deconvolve L new_beam oldbeam of
        Inl e \<Rightarrow> Inl e
      | Inr conbm \<Rightarrow>
          (case gauss_factor L conbm oldbeam dx1 dy1 of
             Inl e \<Rightarrow> Inl e
           | Inr fac \<Rightarrow>
               (case getfacs_loop L new_beam dx1 dy1 rest of
                  Inl e \<Rightarrow> Inl e
                | Inr (conbms, facs) \<Rightarrow> Inr (conbm # conbms, fac # facs))))"

section \<open>Smoothing one channel: \<^verbatim>\<open>smooth\<close> and \<^verbatim>\<open>worker\<close>\<close>

text \<open>
  \<^verbatim>\<open>
  def smooth(image, dy, conbeam, sfactor, verbose=False):
      if np.isnan(conbeam):
          return image*np.nan
      else:
          pix_scale = dy
          gauss_kern = conbeam.as_kernel(dy)
          conbm1 = gauss_kern.array/gauss_kern.array.max()
          newim = scipy.signal.convolve(image.astype('f8'), conbm1, mode='same')
      newim *= sfactor
      return newim
  \<close>
\<close>

definition smooth :: "lib \<Rightarrow> image \<Rightarrow> flt \<Rightarrow> beam \<Rightarrow> flt \<Rightarrow> error + image" where
  "smooth L img pix_scale conbeam sfactor =
     (if isnan_beam L conbeam then Inr (img_mul img NaN)
      else
        (case peak_kernel L conbeam pix_scale of
           Inl e \<Rightarrow> Inl e
         | Inr conbm1 \<Rightarrow>
             (case convolve_same L img conbm1 of
                Inl e \<Rightarrow> Inl e
              | Inr newim \<Rightarrow> Inr (img_mul newim sfactor))))"

text \<open>
  The per-cube record \<^verbatim>\<open>cubedict\<close> (a dictionary with fixed keys) and the two shared
  buffers \<^verbatim>\<open>arr_in\<close> and \<^verbatim>\<open>arr_out\<close>, which the program keeps in globals.
\<close>

record cubeinfo =
  filename :: string
  dx :: flt
  dy :: flt
  beamlog :: string
  oldbeams :: "beam list"
  conbeams :: "beam list"
  sfactors :: "flt list"

record shared =
  arr_in :: "image list"
  arr_out :: "image list"
  cubedict :: cubeinfo

text \<open>
  \<^verbatim>\<open>
  def worker(idx, start):
      newim = smooth(arr_in[idx], cubedict['dy'], cubedict['conbeams'][start+idx],
                     cubedict['sfactors'][start+idx], verbose=False)
      arr_out[idx] = newim[:]
  \<close>
  \<^verbatim>\<open>idx\<close> and \<^verbatim>\<open>start\<close> are never negative (\<^verbatim>\<open>range(width)\<close>, \<^verbatim>\<open>i*width\<close>).  An index
  past the end raises \<^verbatim>\<open>IndexError\<close>.  The assignment into the slice of the output
  buffer keeps the buffer's shape: numpy raises \<^verbatim>\<open>ValueError\<close> when the shapes differ
  (it would also accept a shape that broadcasts, which neither branch of \<^verbatim>\<open>smooth\<close>
  produces from an image of the buffer's shape).
\<close>

definition worker :: "lib \<Rightarrow> nat \<Rightarrow> nat \<Rightarrow> shared \<Rightarrow> error + shared" where
  "worker L idx start sh =
     (if length (arr_in sh) \<le> idx then Inl IndexError
      else if length (conbeams (cubedict sh)) \<le> start + idx then Inl IndexError
      else if length (sfactors (cubedict sh)) \<le> start + idx then Inl IndexError
      else
        (case smooth L (arr_in sh ! idx) (dy (cubedict sh))
                (conbeams (cubedict sh) ! (start + idx)) (sfactors (cubedict sh) ! (start + idx)) of
           Inl e \<Rightarrow> Inl e
         | Inr newim \<Rightarrow>
             if length (arr_out sh) \<le> idx then Inl IndexError
             else if img_shape newim \<noteq> img_shape (arr_out sh ! idx) then Inl ValueError
             else Inr (sh\<lparr>arr_out := (arr_out sh)[idx := newim]\<rparr>)))"

section \<open>Files: \<^verbatim>\<open>_samefile\<close>, \<^verbatim>\<open>copyfile\<close>, \<^verbatim>\<open>copyfileobj\<close>\<close>

text \<open>
  The file system as the functions of \<^verbatim>\<open>os\<close> see it.  \<open>inode_of\<close> is \<^verbatim>\<open>os.stat\<close>
  (it follows symbolic links; \<open>None\<close> is the \<^verbatim>\<open>OSError\<close> of a path that cannot be
  examined) and gives the identity of the file, its device and inode number, that
  \<^verbatim>\<open>os.path.samefile\<close> compares.  \<open>data_of\<close> holds the bytes of the regular files,
  \<open>link_of\<close> the targets of the symbolic links, \<open>writable\<close> says whether
  \<^verbatim>\<open>open(path, 'wb')\<close> is permitted, and \<open>next_inode\<close> numbers the next file created.
\<close>

record filesys =
  inode_of :: "string \<Rightarrow> nat option"
  is_fifo :: "nat \<Rightarrow> bool"
  link_of :: "string \<Rightarrow> string option"
  data_of :: "nat \<Rightarrow> char list option"
  writable :: "string \<Rightarrow> bool"
  next_inode :: nat

text \<open>
  \<^verbatim>\<open>
  def _samefile(src, dst):
      # Macintosh, Unix.
      if hasattr(os.path, 'samefile'):
          try:
              return os.path.samefile(src, dst)
          except OSError:
              return False
  \<close>
  \<open>has_samefile\<close> is \<^verbatim>\<open>hasattr(os.path, 'samefile')\<close>; without it the function falls off
  its end and returns \<^verbatim>\<open>None\<close>, which the caller's \<^verbatim>\<open>if\<close> reads as false.
  \<^verbatim>\<open>os.path.samefile\<close> raises \<^verbatim>\<open>OSError\<close> when either \<^verbatim>\<open>os.stat\<close> fails.
\<close>

definition py_samefile :: "bool \<Rightarrow> filesys \<Rightarrow> string \<Rightarrow> string \<Rightarrow> bool" where
  "py_samefile has_samefile fs src dst =
     (if has_samefile then
        (case inode_of fs src of
           None \<Rightarrow> False
         | Some a \<Rightarrow> (case inode_of fs dst of None \<Rightarrow> False | Some b \<Rightarrow> a = b))
      else False)"

text \<open>The body of the loop \<^verbatim>\<open>for fn in [src, dst]\<close>: is the path a named pipe?\<close>

definition fifo_at :: "filesys \<Rightarrow> string \<Rightarrow> bool" where
  "fifo_at fs fn = (case inode_of fs fn of None \<Rightarrow> False | Some i \<Rightarrow> is_fifo fs i)"

text \<open>\<^verbatim>\<open>open(src, 'rb')\<close>: the file must exist and be a regular file.\<close>

definition open_rb :: "filesys \<Rightarrow> string \<Rightarrow> error + nat" where
  "open_rb fs p =
     (case inode_of fs p of
        None \<Rightarrow> Inl OSError
      | Some i \<Rightarrow> (case data_of fs i of None \<Rightarrow> Inl OSError | Some d \<Rightarrow> Inr i))"

text \<open>\<^verbatim>\<open>open(dst, 'wb')\<close>: an existing file is truncated, a missing one is created.\<close>

definition open_wb :: "filesys \<Rightarrow> string \<Rightarrow> (error + nat) \<times> filesys" where
  "open_wb fs p =
     (if \<not> writable fs p then (Inl OSError, fs)
      else
        (case inode_of fs p of
           Some j \<Rightarrow>
             (case data_of fs j of
                None \<Rightarrow> (Inl OSError, fs)
              | Some d \<Rightarrow> (Inr j, fs\<lparr>data_of := (data_of fs)(j \<mapsto> [])\<rparr>))
         | None \<Rightarrow>
             (Inr (next_inode fs),
              fs\<lparr>inode_of := (inode_of fs)(p \<mapsto> next_inode fs),
                 data_of := (data_of fs)(next_inode fs \<mapsto> []),
                 next_inode := Suc (next_inode fs)\<rparr>)))"

text \<open>
  \<^verbatim>\<open>
  def copyfileobj(fsrc, fdst, length=16*1024, verbose=True):
      total = os.fstat(fsrc.fileno()).st_size
      with tqdm(...) as pbar:
          while True:
              buf = fsrc.read(length)
              if not buf:
                  break
              fdst.write(buf)
              copied = len(buf)
              pbar.update(copied)
  \<close>
  The loop, on the bytes still to be read and the bytes written so far.
\<close>

function copy_loop :: "nat \<Rightarrow> char list \<Rightarrow> char list \<Rightarrow> char list" where
  "copy_loop len rest written =
     (if take len rest = [] then written
      else copy_loop len (drop len rest) (written @ take len rest))"
  by pat_completeness auto
termination
  by (relation "measure (\<lambda>(len, rest, written). length rest)") auto

declare copy_loop.simps [simp del]

definition copyfileobj :: "filesys \<Rightarrow> nat \<Rightarrow> nat \<Rightarrow> filesys" where
  "copyfileobj fs fsrc fdst =
     (case data_of fs fsrc of
        None \<Rightarrow> fs
      | Some d \<Rightarrow> fs\<lparr>data_of := (data_of fs)(fdst \<mapsto> copy_loop (16 * 1024) d [])\<rparr>)"

text \<open>
  \<^verbatim>\<open>os.symlink(os.readlink(src), dst)\<close>: fails when \<^verbatim>\<open>dst\<close> exists; the new link
  resolves to what its target resolves to.
\<close>

definition os_symlink :: "filesys \<Rightarrow> string \<Rightarrow> string \<Rightarrow> (error + unit) \<times> filesys" where
  "os_symlink fs target dst =
     (if inode_of fs dst \<noteq> None \<or> link_of fs dst \<noteq> None \<or> \<not> writable fs dst then (Inl OSError, fs)
      else (Inr (), fs\<lparr>inode_of := (inode_of fs)(dst := inode_of fs target),
                       link_of := (link_of fs)(dst \<mapsto> target)\<rparr>))"

text \<open>
  \<^verbatim>\<open>
  def copyfile(src, dst, *, follow_symlinks=True, verbose=True):
      if _samefile(src, dst):
          raise SameFileError("{!r} and {!r} are the same file".format(src, dst))
      for fn in [src, dst]:
          try:
              st = os.stat(fn)
          except OSError:
              pass
          else:
              if stat.S_ISFIFO(st.st_mode):
                  raise SpecialFileError("`%s` is a named pipe" % fn)
      if not follow_symlinks and os.path.islink(src):
          os.symlink(os.readlink(src), dst)
      else:
          with open(src, 'rb') as fsrc:
              with open(dst, 'wb') as fdst:
                  copyfileobj(fsrc, fdst, verbose=verbose)
      return dst
  \<close>
  The result is the value returned or the exception raised, with the file system the
  call leaves behind.
\<close>

definition copyfile :: "bool \<Rightarrow> filesys \<Rightarrow> string \<Rightarrow> string \<Rightarrow> bool \<Rightarrow> (error + string) \<times> filesys" where
  "copyfile has_samefile fs src dst follow_symlinks =
     (if py_samefile has_samefile fs src dst then (Inl SameFileError, fs)
      else if fifo_at fs src then (Inl SpecialFileError, fs)
      else if fifo_at fs dst then (Inl SpecialFileError, fs)
      else
        (case (if follow_symlinks then None else link_of fs src) of
           Some target \<Rightarrow>
             (case os_symlink fs target dst of
                (Inl e, fs1) \<Rightarrow> (Inl e, fs1)
              | (Inr u, fs1) \<Rightarrow> (Inr dst, fs1))
         | None \<Rightarrow>
             (case open_rb fs src of
                Inl e \<Rightarrow> (Inl e, fs)
              | Inr fsrc \<Rightarrow>
                  (case open_wb fs dst of
                     (Inl e, fs1) \<Rightarrow> (Inl e, fs1)
                   | (Inr fdst, fs1) \<Rightarrow> (Inr dst, copyfileobj fs1 fsrc fdst)))))"

section \<open>Input cubes and beam tables\<close>

text \<open>
  A spectral cube as \<^verbatim>\<open>SpectralCube.read\<close> returns it: its shape (channels, rows,
  columns), its pixels, and the boolean array that \<^verbatim>\<open>.mask.view()\<close> yields, in which the
  program reads a true entry as missing data (``Find bad chans'').
\<close>

record cube =
  shape0 :: nat
  shape1 :: nat
  shape2 :: nat
  pixel :: "nat \<Rightarrow> nat \<Rightarrow> nat \<Rightarrow> flt"
  flagged :: "nat \<Rightarrow> nat \<Rightarrow> nat \<Rightarrow> bool"

text \<open>
  \<^verbatim>\<open>mask = cube[:, cube.shape[1]//2, cube.shape[2]//2].mask.view()\<close>: one flag per
  channel, read at the central pixel.  An empty spatial axis has no central pixel.
\<close>

definition central_mask :: "cube \<Rightarrow> error + bool list" where
  "central_mask c =
     (if shape1 c = 0 \<or> shape2 c = 0 then Inl IndexError
      else Inr (map (\<lambda>k. flagged c k (shape1 c div 2) (shape2 c div 2)) [0..<shape0 c]))"

definition cube_image :: "cube \<Rightarrow> nat \<Rightarrow> image" where
  "cube_image c k = map (\<lambda>y. map (\<lambda>x. pixel c k y x) [0..<shape2 c]) [0..<shape1 c]"

text \<open>\<^verbatim>\<open>cube[start:stop, :]\<close>: a slice is clipped to the channels that exist.\<close>

definition cube_slice :: "cube \<Rightarrow> nat \<Rightarrow> nat \<Rightarrow> image list" where
  "cube_slice c start stop = map (cube_image c) [min start (shape0 c)..<min stop (shape0 c)]"

text \<open>
  A beam log is the list of its rows, with the columns \<^verbatim>\<open>Channel\<close>, \<^verbatim>\<open>BMAJarcsec\<close>,
  \<^verbatim>\<open>BMINarcsec\<close>, \<^verbatim>\<open>BPAdeg\<close>.
  \<^verbatim>\<open>
  def getbeams(beamlog, verbose=False):
      beams = np.genfromtxt(beamlog, names=True)
      nchan = beams.shape[0]
      return beams, nchan
  \<close>
  \<^verbatim>\<open>np.genfromtxt\<close> returns a 1-D array of the rows, except for a log of exactly one
  row: then it returns a 0-d array, whose \<^verbatim>\<open>shape\<close> is the empty tuple, and
  \<^verbatim>\<open>beams.shape[0]\<close> raises \<^verbatim>\<open>IndexError\<close>.
\<close>

record beamrow =
  Channel :: flt
  BMAJarcsec :: flt
  BMINarcsec :: flt
  BPAdeg :: flt

definition getbeams :: "beamrow list \<Rightarrow> error + (beamrow list \<times> nat)" where
  "getbeams beams = (if length beams = 1 then Inl IndexError else Inr (beams, length beams))"

text \<open>
  One file matched by \<^verbatim>\<open>glob(args.infile)\<close>, with what the program reads for it: the
  header keys \<^verbatim>\<open>CDELT1\<close> and \<^verbatim>\<open>CDELT2\<close>, the rows of its beam log, and its cube.
\<close>

record fitsfile =
  fname :: string
  CDELT1 :: flt
  CDELT2 :: flt
  beamtable :: "beamrow list"
  cube_of :: cube

text \<open>\<^verbatim>\<open>s.replace(old, new)\<close> for a non-empty \<^verbatim>\<open>old\<close>, and \<^verbatim>\<open>os.path.basename\<close>.\<close>

function py_replace :: "string \<Rightarrow> string \<Rightarrow> string \<Rightarrow> string" where
  "py_replace old new s =
     (if s = [] then []
      else if old \<noteq> [] \<and> take (length old) s = old
        then new @ py_replace old new (drop (length old) s)
      else hd s # py_replace old new (tl s))"
  by pat_completeness auto
termination
  by (relation "measure (\<lambda>(old, new, s). length s)") auto

declare py_replace.simps [simp del]

definition basename :: "string \<Rightarrow> string" where
  "basename p = rev (takeWhile (\<lambda>c. c \<noteq> CHR ''/'') (rev p))"

text \<open>
  The body of the loop over the files (lines 230--250 of \<^verbatim>\<open>main\<close>): the entry of
  \<^verbatim>\<open>datadict\<close>, the beam table, its channel count and the mask of the cube.  The pixel
  scales are kept in degrees.
  \<^verbatim>\<open>
  dxas = header['CDELT1']*-1*u.deg
  dyas = header['CDELT2']*u.deg
  beamlog = f"beamlog.{file}".replace('.fits', '.txt')
  beam, nchan = getbeams(beamlog, verbose=verbose)
  cube = SpectralCube.read(file)
  mask = cube[:, cube.shape[1]//2, cube.shape[2]//2].mask.view()
  \<close>
\<close>

definition load_file :: "fitsfile \<Rightarrow> error + (cubeinfo \<times> beamrow list \<times> nat \<times> bool list)" where
  "load_file f =
     (let dxas = fmul (CDELT1 f) (Val (- 1));
          dyas = CDELT2 f;
          blog = py_replace ''.fits'' ''.txt'' (''beamlog.'' @ fname f)
      in case getbeams (beamtable f) of
           Inl e \<Rightarrow> Inl e
         | Inr (tbl, nchan) \<Rightarrow>
             (case central_mask (cube_of f) of
                Inl e \<Rightarrow> Inl e
              | Inr msk \<Rightarrow>
                  Inr (\<lparr>filename = fname f, dx = dxas, dy = dyas, beamlog = blog,
                        oldbeams = [], conbeams = [], sfactors = []\<rparr>, tbl, nchan, msk)))"

fun load_files :: "fitsfile list \<Rightarrow> error + (cubeinfo \<times> beamrow list \<times> nat \<times> bool list) list" where
  "load_files [] = Inr []"
| "load_files (f # fs) =
     (case load_file f of
        Inl e \<Rightarrow> Inl e
      | Inr x \<Rightarrow> (case load_files fs of Inl e \<Rightarrow> Inl e | Inr xs \<Rightarrow> Inr (x # xs)))"

section \<open>Validity aggregator\<close>

text \<open>
  \<^verbatim>\<open>totalmask = sum(masks) > 0\<close>.  \<^verbatim>\<open>sum\<close> starts from the integer 0 and adds the boolean
  arrays one by one with numpy's \<^verbatim>\<open>+\<close>: a scalar is added to every entry; two 1-D arrays
  are added entry by entry when their lengths agree or one of them has length 1 (which
  is then repeated), and \<^verbatim>\<open>ValueError\<close> is raised otherwise.
\<close>

datatype 'a ndarray = Scalar 'a | Arr "'a list"

definition bget :: "'a list \<Rightarrow> nat \<Rightarrow> 'a" where
  "bget v k = (if length v = 1 then v ! 0 else v ! k)"

definition bcompat :: "nat \<Rightarrow> nat \<Rightarrow> bool" where
  "bcompat a b \<longleftrightarrow> a = b \<or> a = 1 \<or> b = 1"

definition bjoin :: "nat \<Rightarrow> nat \<Rightarrow> nat" where
  "bjoin a b = (if a = 1 then b else a)"

fun np_add :: "int ndarray \<Rightarrow> bool list \<Rightarrow> error + int ndarray" where
  "np_add (Scalar a) m = Inr (Arr (map (\<lambda>b. a + of_bool b) m))"
| "np_add (Arr v) m =
     (if bcompat (length v) (length m)
      then Inr (Arr (map (\<lambda>k. bget v k + of_bool (bget m k)) [0..<bjoin (length v) (length m)]))
      else Inl ValueError)"

fun py_sum :: "int ndarray \<Rightarrow> bool list list \<Rightarrow> error + int ndarray" where
  "py_sum acc [] = Inr acc"
| "py_sum acc (m # ms) =
     (case np_add acc m of Inl e \<Rightarrow> Inl e | Inr acc' \<Rightarrow> py_sum acc' ms)"

definition total_mask :: "bool list list \<Rightarrow> error + bool ndarray" where
  "total_mask masks =
     (case py_sum (Scalar 0) masks of
        Inl e \<Rightarrow> Inl e
      | Inr (Scalar a) \<Rightarrow> Inr (Scalar (0 < a))
      | Inr (Arr v) \<Rightarrow> Inr (Arr (map (\<lambda>x. 0 < x) v)))"

text \<open>
  \<^verbatim>\<open>column[totalmask] = np.nan\<close>: a boolean index must have the length of the array
  (\<^verbatim>\<open>IndexError\<close>); a 0-d boolean selects everything or nothing.
\<close>

fun mask_assign :: "flt list \<Rightarrow> bool ndarray \<Rightarrow> error + flt list" where
  "mask_assign xs (Scalar b) = Inr (if b then map (\<lambda>x. NaN) xs else xs)"
| "mask_assign xs (Arr m) =
     (if length m \<noteq> length xs then Inl IndexError
      else Inr (map (\<lambda>(x, b). if b then NaN else x) (zip xs m)))"

text \<open>
  \<^verbatim>\<open>Beams(major, minor, pa)\<close>: the beam set of three columns.  The constructor of
  \<^verbatim>\<open>radio_beam\<close> refuses columns of different lengths and a beam whose minor axis is
  greater than its major axis (\<^verbatim>\<open>np.any(minor > major)\<close>, false for a NaN entry), with
  \<^verbatim>\<open>ValueError\<close>.
\<close>

definition Beams :: "flt list \<Rightarrow> flt list \<Rightarrow> flt list \<Rightarrow> error + beam list" where
  "Beams majs mins pas =
     (if length mins \<noteq> length majs then Inl ValueError
      else if list_ex (\<lambda>(a, b). flt_less a b) (zip majs mins) then Inl ValueError
      else Inr (map (\<lambda>(a, b, c). \<lparr>major = a, minor = b, pa = c\<rparr>) (zip majs (zip mins pas))))"

text \<open>
  The body of the masking loop (lines 256--261), for the table of one cube:
  \<^verbatim>\<open>
  beams['BMAJarcsec'][i][totalmask] = np.nan
  beams['BMINarcsec'][i][totalmask] = np.nan
  beams['BPAdeg'][i][totalmask] = np.nan
  datadict[f"cube_{i}"]["oldbeams"] = Beams(beams['BMAJarcsec'][i].ravel()*u.arcsec,
      beams['BMINarcsec'][i].ravel()*u.arcsec, beams['BPAdeg'][i].ravel()*u.deg)
  \<close>
\<close>

definition mask_table :: "bool ndarray \<Rightarrow> beamrow list \<Rightarrow> error + beam list" where
  "mask_table totalmask tbl =
     (case mask_assign (map BMAJarcsec tbl) totalmask of
        Inl e \<Rightarrow> Inl e
      | Inr majs \<Rightarrow>
          (case mask_assign (map BMINarcsec tbl) totalmask of
             Inl e \<Rightarrow> Inl e
           | Inr mins \<Rightarrow>
               (case mask_assign (map BPAdeg tbl) totalmask of
                  Inl e \<Rightarrow> Inl e
                | Inr pas \<Rightarrow> Beams majs mins pas)))"

fun mask_tables :: "bool ndarray \<Rightarrow> (cubeinfo \<times> beamrow list) list \<Rightarrow> error + cubeinfo list" where
  "mask_tables totalmask [] = Inr []"
| "mask_tables totalmask ((info, tbl) # rest) =
     (case mask_table totalmask tbl of
        Inl e \<Rightarrow> Inl e
      | Inr obs \<Rightarrow>
          (case mask_tables totalmask rest of
             Inl e \<Rightarrow> Inl e
           | Inr infos \<Rightarrow> Inr (info\<lparr>oldbeams := obs\<rparr> # infos)))"

text \<open>
  Lines 222--264: the files are loaded, the beam tables are stacked into one array
  (\<^verbatim>\<open>np.array(beams)\<close> raises \<^verbatim>\<open>ValueError\<close> for tables of different lengths), the
  masks are united and applied to every table, and only then the channel counts are
  compared.
  \<^verbatim>\<open>
  files = glob(args.infile)
  if files == []:
      raise Exception('No files found!')
  ...
  beams = np.array(beams)
  nchans = np.array(nchans)
  totalmask = sum(masks) > 0
  for i, _ in enumerate(beams['BMAJarcsec']): ...
  if not all(elem == nchans[0] for elem in nchans):
      raise Exception('Unequal channel count in beamlogs!')
  \<close>
\<close>

definition np_stack :: "'a list list \<Rightarrow> error + 'a list list" where
  "np_stack tbls =
     (if \<forall>t \<in> set tbls. length t = length (hd tbls) then Inr tbls else Inl ValueError)"

definition load_and_mask :: "fitsfile list \<Rightarrow> error + (cubeinfo list \<times> bool ndarray)" where
  "load_and_mask files =
     (if files = [] then Inl NoFilesFound
      else
        (case load_files files of
           Inl e \<Rightarrow> Inl e
         | Inr loaded \<Rightarrow>
             (let beams = map (\<lambda>(info, tbl, nchan, msk). tbl) loaded;
                  nchans = map (\<lambda>(info, tbl, nchan, msk). nchan) loaded;
                  masks = map (\<lambda>(info, tbl, nchan, msk). msk) loaded;
                  infos = map (\<lambda>(info, tbl, nchan, msk). info) loaded
              in case np_stack beams of
                   Inl e \<Rightarrow> Inl e
                 | Inr stacked \<Rightarrow>
                     (case total_mask masks of
                        Inl e \<Rightarrow> Inl e
                      | Inr totalmask \<Rightarrow>
                          (case mask_tables totalmask (zip infos stacked) of
                             Inl e \<Rightarrow> Inl e
                           | Inr datadict \<Rightarrow>
                               if \<not> (\<forall>elem \<in> set nchans. elem = hd nchans)
                               then Inl UnequalChannelCount
                               else Inr (datadict, totalmask))))))"

section \<open>Target beam\<close>

text \<open>
  The command line: \<^verbatim>\<open>--bmaj\<close>, \<^verbatim>\<open>--bmin\<close> and \<^verbatim>\<open>--bpa\<close> are floats or \<^verbatim>\<open>None\<close>,
  \<^verbatim>\<open>--ncores\<close> an integer, \<^verbatim>\<open>--outdir\<close> a string or \<^verbatim>\<open>None\<close>.
\<close>

record args =
  infile :: string
  outdir :: "string option"
  bmaj :: "flt option"
  bmin :: "flt option"
  bpa :: "flt option"
  n_cores :: int
  mpi :: bool
  verbose :: bool

text \<open>
  \<^verbatim>\<open>
  if bpa is None and bmin is not None and bmaj is not None:
      bpa = big_beam.bpa.to(u.deg)
  else:
      bpa = 0*u.deg
  \<close>
\<close>

definition select_bpa :: "lib \<Rightarrow> args \<Rightarrow> beam \<Rightarrow> error + flt" where
  "select_bpa L a big_beam =
     (if bpa a = None \<and> bmin a \<noteq> None \<and> bmaj a \<noteq> None then beam_bpa L big_beam
      else Inr (Val 0))"

text \<open>
  \<^verbatim>\<open>
  if bmaj is None:
      bmaj = round_up(big_beam.major.to(u.arcsec))
  elif bmaj*u.arcsec < round_up(big_beam.major.to(u.arcsec)):
      raise Exception('Selected BMAJ is too small!')
  else:
      bmaj *= u.arcsec
  \<close>
\<close>

definition select_bmaj :: "args \<Rightarrow> beam \<Rightarrow> error + flt" where
  "select_bmaj a big_beam =
     (case bmaj a of
        None \<Rightarrow> Inr (round_up (major big_beam) 0)
      | Some v \<Rightarrow>
          if flt_less v (round_up (major big_beam) 0) then Inl BmajTooSmall else Inr v)"

text \<open>
  \<^verbatim>\<open>
  if bmin is None:
      bmin = round_up(big_beam.major.to(u.arcsec))
  elif bmin*u.arcsec < round_up(big_beam.major.to(u.arcsec)):
      raise Exception('Selected BMIN is too small!')
  else:
      bmin *= u.arcsec
  \<close>
\<close>

definition select_bmin :: "args \<Rightarrow> beam \<Rightarrow> error + flt" where
  "select_bmin a big_beam =
     (case bmin a of
        None \<Rightarrow> Inr (round_up (major big_beam) 0)
      | Some v \<Rightarrow>
          if flt_less v (round_up (major big_beam) 0) then Inl BminTooSmall else Inr v)"

text \<open>
  Lines 273--299: the three arguments of the constructor \<^verbatim>\<open>Beam(bmaj, bmin, bpa)\<close>, in
  the order in which the program computes them.
\<close>

definition target_params :: "lib \<Rightarrow> args \<Rightarrow> beam \<Rightarrow> error + (flt \<times> flt \<times> flt)" where
  "target_params L a big_beam =
     (case select_bpa L a big_beam of
        Inl e \<Rightarrow> Inl e
      | Inr p \<Rightarrow>
          (case select_bmaj a big_beam of
             Inl e \<Rightarrow> Inl e
           | Inr mj \<Rightarrow>
               (case select_bmin a big_beam of
                  Inl e \<Rightarrow> Inl e
                | Inr mn \<Rightarrow> Inr (mj, mn, p))))"

definition target_beam :: "lib \<Rightarrow> args \<Rightarrow> beam \<Rightarrow> error + beam" where
  "target_beam L a big_beam =
     (case target_params L a big_beam of
        Inl e \<Rightarrow> Inl e
      | Inr (mj, mn, p) \<Rightarrow> Beam_new L mj mn p)"

text \<open>
  Everything \<^verbatim>\<open>main\<close> does between the \<^verbatim>\<open>glob\<close> and the loop over the cubes (lines
  222--299): the per-cube records with their masked beams, and the target beam.
  \<^verbatim>\<open>
  beamlst = Beams(beams['BMAJarcsec'].ravel()*u.arcsec, beams['BMINarcsec'].ravel()*u.arcsec,
                  beams['BPAdeg'].ravel()*u.deg)
  big_beam = beamlst.largest_beam()
  \<close>
  The columns are the masked ones, so \<^verbatim>\<open>beamlst\<close> is the beam sets of the cubes one after
  the other; its constructor checks again what the constructor of each beam set has
  checked.
\<close>

definition prepare :: "lib \<Rightarrow> args \<Rightarrow> fitsfile list \<Rightarrow> error + (cubeinfo list \<times> beam)" where
  "prepare L a files =
     (case load_and_mask files of
        Inl e \<Rightarrow> Inl e
      | Inr (datadict, totalmask) \<Rightarrow>
          (case largest_beam L (concat (map oldbeams datadict)) of
             Inl e \<Rightarrow> Inl e
           | Inr big_beam \<Rightarrow>
               (case target_beam L a big_beam of
                  Inl e \<Rightarrow> Inl e
                | Inr new_beam \<Rightarrow> Inr (datadict, new_beam))))"

section \<open>Parallel executor and incremental writer\<close>

text \<open>
  What a run does to the outside is recorded: the file system after the copies, and the
  sequence of the other effects --- a finished copy, a chunk loaded into the input
  buffer, a channel smoothed by a worker, a chunk written to the output file, the header
  update.
\<close>

datatype event =
    Copied string string
  | Loaded nat nat
  | Smoothed nat
  | Wrote string nat nat "image list"
  | HeaderUpdated string beam

record world =
  wfs :: filesys
  trace :: "event list"

definition emit :: "event \<Rightarrow> world \<Rightarrow> world" where
  "emit ev w = w\<lparr>trace := trace w @ [ev]\<rparr>"

text \<open>
  \<^verbatim>\<open>getfacs(datadict[key], new_beam)\<close>: the pixel scales are converted with
  \<^verbatim>\<open>.to(u.arcsec).value\<close>.
\<close>

definition getfacs :: "lib \<Rightarrow> cubeinfo \<Rightarrow> beam \<Rightarrow> error + (beam list \<times> flt list)" where
  "getfacs L datadict new_beam =
     getfacs_loop L new_beam (fmul (dx datadict) (Val 3600)) (fmul (dy datadict) (Val 3600))
       (oldbeams datadict)"

text \<open>
  \<^verbatim>\<open>list(pool.map(func, [idx for idx in range(width)]))\<close> with
  \<^verbatim>\<open>func = functools.partial(worker, start=start)\<close>.  The tasks write disjoint slices
  of the output buffer and read nothing another task writes, so the model runs them in
  the order of the list; the exception of a task leaves \<^verbatim>\<open>pool.map\<close>.
\<close>

fun pool_map :: "lib \<Rightarrow> nat \<Rightarrow> nat list \<Rightarrow> shared \<Rightarrow> world \<Rightarrow> (error + shared) \<times> world" where
  "pool_map L start [] sh w = (Inr sh, w)"
| "pool_map L start (idx # idxs) sh w =
     (case worker L idx start sh of
        Inl e \<Rightarrow> (Inl e, w)
      | Inr sh' \<Rightarrow> pool_map L start idxs sh' (emit (Smoothed (start + idx)) w))"

text \<open>
  \<^verbatim>\<open>arr_in[:] = cube[start:stop, :]\<close>: the buffer keeps its shape, so the slice must
  have it (numpy would also repeat a slice of one channel; the chunk loop never
  produces a short slice, see below).
\<close>

definition assign_all :: "image list \<Rightarrow> image list \<Rightarrow> error + image list" where
  "assign_all buf src =
     (if map img_shape src = map img_shape buf then Inr src else Inl ValueError)"

text \<open>
  The body of the chunk loop (lines 357--375):
  \<^verbatim>\<open>
  start = i*width
  stop = start+width
  arr_in[:] = cube[start:stop, :]
  pool = schwimmbad.choose_pool(...)
  func = functools.partial(worker, start=start)
  list(pool.map(func, [idx for idx in range(width)]))
  pool.close()
  with fits.open(outfile, mode='update', memmap=True) as outfh:
      outfh[0].data[start:stop,0,:,:] = arr_out[:]
      outfh.flush()
  \<close>
\<close>

definition do_chunk :: "lib \<Rightarrow> cube \<Rightarrow> string \<Rightarrow> nat \<Rightarrow> nat \<Rightarrow> shared \<Rightarrow> world \<Rightarrow> (error + shared) \<times> world" where
  "do_chunk L c outfile width i sh w =
     (let start = i * width; stop = start + width
      in case assign_all (arr_in sh) (cube_slice c start stop) of
           Inl e \<Rightarrow> (Inl e, w)
         | Inr a \<Rightarrow>
             (case pool_map L start [0..<width] (sh\<lparr>arr_in := a\<rparr>) (emit (Loaded start stop) w) of
                (Inl e, w1) \<Rightarrow> (Inl e, w1)
              | (Inr sh1, w1) \<Rightarrow> (Inr sh1, emit (Wrote outfile start stop (arr_out sh1)) w1)))"

fun chunk_loop :: "lib \<Rightarrow> cube \<Rightarrow> string \<Rightarrow> nat \<Rightarrow> nat list \<Rightarrow> shared \<Rightarrow> world \<Rightarrow> (error + shared) \<times> world" where
  "chunk_loop L c outfile width [] sh w = (Inr sh, w)"
| "chunk_loop L c outfile width (i # rest) sh w =
     (case do_chunk L c outfile width i sh w of
        (Inl e, w1) \<Rightarrow> (Inl e, w1)
      | (Inr sh1, w1) \<Rightarrow> chunk_loop L c outfile width rest sh1 w1)"

text \<open>The chunks \<^verbatim>\<open>(start, stop)\<close> that the loop \<^verbatim>\<open>for i in trange(n_chunks)\<close> visits.\<close>

definition chunk_ranges :: "nat \<Rightarrow> nat \<Rightarrow> (nat \<times> nat) list" where
  "chunk_ranges n_chunks width = map (\<lambda>i. (i * width, i * width + width)) [0..<n_chunks]"

text \<open>
  The buffers (lines 328--351): \<^verbatim>\<open>outshape = list(cube.shape); outshape[0] = width\<close>, and
  \<^verbatim>\<open>arr_out[:] = np.zeros(outshape)*np.nan\<close>; the same for \<^verbatim>\<open>arr_in\<close>.
\<close>

definition nan_buffer :: "nat \<Rightarrow> cube \<Rightarrow> image list" where
  "nan_buffer width c = replicate width (replicate (shape1 c) (replicate (shape2 c) NaN))"

text \<open>
  The body of the loop over the cubes (lines 304--381).  The cube read again from the
  file is the cube read when the files were loaded.  Opening the output file for the
  chunk writes and for the header update is taken to succeed (I/O errors are outside
  the model); \<^verbatim>\<open>attach_to_header\<close> is a library call and can raise.
\<close>

definition process_cube ::
  "lib \<Rightarrow> bool \<Rightarrow> int \<Rightarrow> string \<Rightarrow> beam \<Rightarrow> cubeinfo \<times> cube \<Rightarrow> world \<Rightarrow> (error + unit) \<times> world" where
  "process_cube L has_samefile ncores od new_beam ic w =
     (case getfacs L (fst ic) new_beam of
        Inl e \<Rightarrow> (Inl e, w)
      | Inr (conbms, facs) \<Rightarrow>
          (let outname = basename (py_replace ''.fits'' ''.sm.fits'' (filename (fst ic)));
               outfile = od @ ''/'' @ outname
           in case copyfile has_samefile (wfs w) (filename (fst ic)) outfile True of
                (Inl e, fs1) \<Rightarrow> (Inl e, w\<lparr>wfs := fs1\<rparr>)
              | (Inr d, fs1) \<Rightarrow>
                  (let w1 = emit (Copied (filename (fst ic)) outfile) (w\<lparr>wfs := fs1\<rparr>);
                       cd = (fst ic)\<lparr>conbeams := conbms, sfactors := facs\<rparr>
                   in case chunk_plan ncores (int (shape0 (snd ic))) of
                        Inl e \<Rightarrow> (Inl e, w1)
                      | Inr (width, n_chunks) \<Rightarrow>
                          (let sh = \<lparr>arr_in = nan_buffer (nat width) (snd ic),
                                     arr_out = nan_buffer (nat width) (snd ic),
                                     cubedict = cd\<rparr>
                           in case chunk_loop L (snd ic) outfile (nat width) [0..<nat n_chunks] sh w1 of
                                (Inl e, w2) \<Rightarrow> (Inl e, w2)
                              | (Inr sh2, w2) \<Rightarrow>
                                  (case attach_to_header L new_beam of
                                     Inl e \<Rightarrow> (Inl e, w2)
                                   | Inr u \<Rightarrow> (Inr (), emit (HeaderUpdated outfile new_beam) w2))))))"

fun process_cubes ::
  "lib \<Rightarrow> bool \<Rightarrow> int \<Rightarrow> string \<Rightarrow> beam \<Rightarrow> (cubeinfo \<times> cube) list \<Rightarrow> world \<Rightarrow> (error + unit) \<times> world" where
  "process_cubes L has_samefile ncores od new_beam [] w = (Inr (), w)"
| "process_cubes L has_samefile ncores od new_beam (ic # rest) w =
     (case process_cube L has_samefile ncores od new_beam ic w of
        (Inl e, w1) \<Rightarrow> (Inl e, w1)
      | (Inr u, w1) \<Rightarrow> process_cubes L has_samefile ncores od new_beam rest w1)"

section \<open>The run: \<^verbatim>\<open>main\<close>\<close>

text \<open>
  \<^verbatim>\<open>
  outdir = args.outdir
  if outdir is not None:
      if outdir[-1] == '/':
          outdir = outdir[:-1]
  else:
      outdir = '.'
  \<close>
\<close>

definition fix_outdir :: "string option \<Rightarrow> error + string" where
  "fix_outdir od =
     (case od of
        None \<Rightarrow> Inr ''.''
      | Some s \<Rightarrow>
          if s = [] then Inl IndexError
          else if last s = CHR ''/'' then Inr (butlast s)
          else Inr s)"

text \<open>
  The master process of a run.  \<open>files\<close> is what \<^verbatim>\<open>glob(args.infile)\<close> matched, read
  without I/O errors; \<open>mpi_size\<close> is \<^verbatim>\<open>MPI.COMM_WORLD.Get_size()\<close>, used for
  \<^verbatim>\<open>n_cores\<close> under \<^verbatim>\<open>--mpi\<close>; \<open>fs\<close> is the file system at the start.  The result is the
  exception that ends the run, or \<open>()\<close>, with the file system and the effects at that
  point.
\<close>

definition main ::
  "lib \<Rightarrow> bool \<Rightarrow> int \<Rightarrow> args \<Rightarrow> fitsfile list \<Rightarrow> filesys \<Rightarrow> (error + unit) \<times> world" where
  "main L has_samefile mpi_size a files fs =
     (let w0 = \<lparr>wfs = fs, trace = []\<rparr>;
          ncores = (if mpi a then mpi_size else n_cores a)
      in case fix_outdir (outdir a) of
           Inl e \<Rightarrow> (Inl e, w0)
         | Inr od \<Rightarrow>
             (case prepare L a files of
                Inl e \<Rightarrow> (Inl e, w0)
              | Inr (datadict, new_beam) \<Rightarrow>
                  process_cubes L has_samefile ncores od new_beam
                    (zip datadict (map cube_of files)) w0))"

section \<open>Observations on a run\<close>

text \<open>The chunks that a trace loaded, and the chunks it wrote, in the order of the trace.\<close>

fun loads :: "event list \<Rightarrow> (nat \<times> nat) list" where
  "loads [] = []"
| "loads (Loaded s e # evs) = (s, e) # loads evs"
| "loads (ev # evs) = loads evs"

fun writes :: "event list \<Rightarrow> (nat \<times> nat) list" where
  "writes [] = []"
| "writes (Wrote f s e d # evs) = (s, e) # writes evs"
| "writes (ev # evs) = writes evs"

text \<open>
  The chunks a trace wrote with the file each went to; and, for a set \<open>bad\<close> of channels,
  that every channel of \<open>bad\<close> in a written chunk was written as an all-NaN image.
\<close>

fun wrote :: "event list \<Rightarrow> (string \<times> nat \<times> nat) list" where
  "wrote [] = []"
| "wrote (Wrote f s e d # evs) = (f, s, e) # wrote evs"
| "wrote (ev # evs) = wrote evs"

fun written_nan :: "(nat \<Rightarrow> bool) \<Rightarrow> event \<Rightarrow> bool" where
  "written_nan bad (Wrote f s e d) =
     list_all (\<lambda>k. bad k \<longrightarrow> k - s < length d \<and> all_nan (d ! (k - s))) [s..<e]"
| "written_nan bad ev = True"

text \<open>The buffers and the record of a cube when its chunk loop starts (lines 314--351).\<close>

definition cube_shared :: "nat \<Rightarrow> cubeinfo \<times> cube \<Rightarrow> beam list \<Rightarrow> flt list \<Rightarrow> shared" where
  "cube_shared width ic conbms facs =
     \<lparr>arr_in = nan_buffer width (snd ic), arr_out = nan_buffer width (snd ic),
      cubedict = (fst ic)\<lparr>conbeams := conbms, sfactors := facs\<rparr>\<rparr>"

text \<open>The output file of a cube (lines 307--309).\<close>

definition outfile_of :: "string \<Rightarrow> string \<Rightarrow> string" where
  "outfile_of od file = od @ ''/'' @ basename (py_replace ''.fits'' ''.sm.fits'' file)"

text \<open>
  What the loop over the files computes for one file, part by part: its record, its
  mask, the flag of a channel at the central pixel, and whether the central pixel exists.
\<close>

definition file_info :: "fitsfile \<Rightarrow> cubeinfo" where
  "file_info f =
     \<lparr>filename = fname f, dx = fmul (CDELT1 f) (Val (- 1)), dy = CDELT2 f,
      beamlog = py_replace ''.fits'' ''.txt'' (''beamlog.'' @ fname f),
      oldbeams = [], conbeams = [], sfactors = []\<rparr>"

definition centre_flag :: "fitsfile \<Rightarrow> nat \<Rightarrow> bool" where
  "centre_flag f k = flagged (cube_of f) k (shape1 (cube_of f) div 2) (shape2 (cube_of f) div 2)"

definition file_mask :: "fitsfile \<Rightarrow> bool list" where
  "file_mask f =
     map (\<lambda>k. flagged (cube_of f) k (shape1 (cube_of f) div 2) (shape2 (cube_of f) div 2))
       [0..<shape0 (cube_of f)]"

definition has_centre :: "fitsfile \<Rightarrow> bool" where
  "has_centre f \<longleftrightarrow> shape1 (cube_of f) \<noteq> 0 \<and> shape2 (cube_of f) \<noteq> 0"

text \<open>The beam of a row of a beam log.\<close>

definition row_beam :: "beamrow \<Rightarrow> beam" where
  "row_beam r = \<lparr>major = BMAJarcsec r, minor = BMINarcsec r, pa = BPAdeg r\<rparr>"

text \<open>The beam set of a cube after the masking, for cubes of \<open>n\<close> channels.\<close>

definition masked_beams :: "fitsfile list \<Rightarrow> nat \<Rightarrow> fitsfile \<Rightarrow> beam list" where
  "masked_beams files n f =
     map (\<lambda>k. if \<exists>g \<in> set files. centre_flag g k then nan_beam else row_beam (beamtable f ! k)) [0..<n]"

text \<open>
  Broadcasting, as a property of the set of the lengths that meet in a sum: the lengths
  other than 1 must agree, and they give the length of the result.
\<close>

definition nonunit :: "nat set \<Rightarrow> nat set" where
  "nonunit S = {n \<in> S. n \<noteq> 1}"

definition shapes_ok :: "nat set \<Rightarrow> bool" where
  "shapes_ok S \<longleftrightarrow> (\<forall>a \<in> nonunit S. \<forall>b \<in> nonunit S. a = b)"

definition blen :: "nat set \<Rightarrow> nat" where
  "blen S = (if nonunit S = {} then 1 else the_elem (nonunit S))"

definition badd :: "int list \<Rightarrow> bool list \<Rightarrow> int list" where
  "badd v m = map (\<lambda>k. bget v k + of_bool (bget m k)) [0..<bjoin (length v) (length m)]"

section \<open>The behaviour of \<^verbatim>\<open>radio_beam\<close> that the examples rest on\<close>

text \<open>
  \<^verbatim>\<open>radio_beam\<close> is not part of the repository; the theorems about the program hold for
  every value of the parameter \<open>lib\<close>.  Where a statement is about one run, the run
  needs a library, and two facts of the documented behaviour of \<^verbatim>\<open>radio_beam\<close> decide
  what the run does:
  \<^item> \<^verbatim>\<open>Beams.largest_beam()\<close> ``returns the largest beam (by area) in a list of
    beams'': of the beams with finite axes, the first one of greatest area
    \<^verbatim>\<open>major * minor\<close>; \<^verbatim>\<open>argmax\<close> of an empty selection raises \<^verbatim>\<open>ValueError\<close>.
  \<^item> \<^verbatim>\<open>Beam.deconvolve(other)\<close> raises \<^verbatim>\<open>BeamError\<close> (``Beam could not be
    deconvolved'') when the deconvolution fails, \<^verbatim>\<open>failure_returns_pointlike\<close> being
    false by default.  A target whose major axis is shorter than the major axis of the
    native beam cannot be deconvolved from it: along the major axis of the native beam
    the kernel would need a negative width.  A native beam with NaN axes fails none of
    the tests (every comparison with NaN is false) and deconvolves to a NaN beam.
  The kernel that \<open>rb_deconvolve\<close> returns in the remaining case is a placeholder (the
  target beam itself): no statement below depends on it.
\<close>

definition beam_area :: "beam \<Rightarrow> flt" where
  "beam_area b = fmul (major b) (minor b)"

fun argmax_area :: "beam \<Rightarrow> beam list \<Rightarrow> beam" where
  "argmax_area best [] = best"
| "argmax_area best (b # bs) =
     argmax_area (if flt_less (beam_area best) (beam_area b) then b else best) bs"

definition rb_largest_beam :: "beam list \<Rightarrow> error + beam" where
  "rb_largest_beam bs =
     (case filter (\<lambda>b. beam_area b \<noteq> NaN) bs of
        [] \<Rightarrow> Inl ValueError
      | b # rest \<Rightarrow> Inr (argmax_area b rest))"

definition rb_deconvolve :: "beam \<Rightarrow> beam \<Rightarrow> error + beam" where
  "rb_deconvolve new old =
     (if major old = NaN \<or> minor old = NaN \<or> pa old = NaN then Inr nan_beam
      else if flt_less (major new) (major old) then Inl BeamError
      else Inr \<lparr>major = major new, minor = minor new, pa = Val 0\<rparr>)"

section \<open>Example inputs\<close>

text \<open>
  Concrete inputs on which the theorems below are instantiated.  \<open>stub_lib\<close> stands in
  for the libraries: \<open>largest_beam\<close> and \<open>deconvolve\<close> are the two functions above, a
  beam is NaN when its area is, a NaN beam cannot be written to a header, and the
  kernel, the factor and the convolution are the simplest ones.  \<open>file_A\<close> and
  \<open>file_B\<close> are two cubes of five channels whose beam logs agree; channel 2 is flagged
  in \<open>file_A\<close> only.  \<open>file_W\<close> is \<open>file_B\<close> with a beam of 30 by 1 arcseconds, of
  small area and long major axis, in channel 1.
\<close>

definition stub_lib :: lib where
  "stub_lib =
     \<lparr>largest_beam = rb_largest_beam,
      beam_bpa = (\<lambda>b. Inr (pa b)),
      Beam_new = (\<lambda>a b c. Inr \<lparr>major = a, minor = b, pa = c\<rparr>),
      deconvolve = rb_deconvolve,
      gauss_factor = (\<lambda>conbm old dx1 dy1. if major conbm = NaN then Inr NaN else Inr (Val 1)),
      isnan_beam = (\<lambda>b. beam_area b = NaN),
      peak_kernel = (\<lambda>b s. Inr [[Val 1]]),
      convolve_same = (\<lambda>im k. Inr im),
      attach_to_header = (\<lambda>b. if beam_area b = NaN then Inl ValueError else Inr ())\<rparr>"

definition example_table :: "beamrow list" where
  "example_table =
     map (\<lambda>k. \<lparr>Channel = Val (real k), BMAJarcsec = Val 12, BMINarcsec = Val 10, BPAdeg = Val 30\<rparr>)
       [0..<5]"

definition cube_A :: cube where
  "cube_A = \<lparr>shape0 = 5, shape1 = 2, shape2 = 2, pixel = (\<lambda>k y x. Val 1), flagged = (\<lambda>k y x. k = 2)\<rparr>"

definition cube_B :: cube where
  "cube_B = \<lparr>shape0 = 5, shape1 = 2, shape2 = 2, pixel = (\<lambda>k y x. Val 2), flagged = (\<lambda>k y x. False)\<rparr>"

definition file_A :: fitsfile where
  "file_A = \<lparr>fname = ''A.fits'', CDELT1 = Val (- 1), CDELT2 = Val 1, beamtable = example_table,
     cube_of = cube_A\<rparr>"

definition file_B :: fitsfile where
  "file_B = \<lparr>fname = ''B.fits'', CDELT1 = Val (- 1), CDELT2 = Val 1, beamtable = example_table,
     cube_of = cube_B\<rparr>"

definition file_short :: fitsfile where
  "file_short = \<lparr>fname = ''C.fits'', CDELT1 = Val (- 1), CDELT2 = Val 1,
     beamtable = take 3 example_table, cube_of = cube_B\<rparr>"

definition example_beam :: beam where
  "example_beam = \<lparr>major = Val 12, minor = Val 10, pa = Val 30\<rparr>"

definition wide_beam :: beam where
  "wide_beam = \<lparr>major = Val 30, minor = Val 1, pa = Val 0\<rparr>"

definition file_W :: fitsfile where
  "file_W = \<lparr>fname = ''W.fits'', CDELT1 = Val (- 1), CDELT2 = Val 1,
     beamtable = example_table
       [1 := \<lparr>Channel = Val 1, BMAJarcsec = Val 30, BMINarcsec = Val 1, BPAdeg = Val 0\<rparr>],
     cube_of = cube_B\<rparr>"

definition target_20 :: beam where
  "target_20 = \<lparr>major = Val 20, minor = Val 20, pa = Val 0\<rparr>"


definition example_args :: args where
  "example_args = \<lparr>infile = ''*.fits'', outdir = None, bmaj = Some (Val 20), bmin = Some (Val 20),
     bpa = Some (Val 45), n_cores = 4, mpi = False, verbose = False\<rparr>"

definition example_fs :: filesys where
  "example_fs =
     \<lparr>inode_of = [''A.fits'' \<mapsto> 1, ''./A.fits'' \<mapsto> 1, ''B.fits'' \<mapsto> 2, ''W.fits'' \<mapsto> 3],
      is_fifo = (\<lambda>i. False), link_of = Map.empty,
      data_of = [1 \<mapsto> ''SIMPLE'', 2 \<mapsto> ''SIMPLE'', 3 \<mapsto> ''SIMPLE''],
      writable = (\<lambda>p. True), next_inode = 4\<rparr>"

definition cube_10 :: cube where
  "cube_10 = \<lparr>shape0 = 10, shape1 = 1, shape2 = 1, pixel = (\<lambda>k y x. Val 1), flagged = (\<lambda>k y x. False)\<rparr>"

definition example_image :: image where
  "example_image = [[Val 1, Val 2], [Val 3, NaN]]"

definition example_shared :: shared where
  "example_shared =
     \<lparr>arr_in = [example_image, example_image],
      arr_out = [[[NaN, NaN], [NaN, NaN]], [[NaN, NaN], [NaN, NaN]]],
      cubedict = (file_info file_A)\<lparr>conbeams := [example_beam, example_beam, nan_beam, example_beam],
                   sfactors := [Val 1, Val 1, NaN, Val 1]\<rparr>\<rparr>"

definition example_info_10 :: cubeinfo where
  "example_info_10 = (file_info file_A)\<lparr>oldbeams := replicate 10 example_beam\<rparr>"

definition example_world :: world where
  "example_world = \<lparr>wfs = example_fs, trace = []\<rparr>"

section \<open>Properties of the chunk planner\<close>

lemma set_factors_of: "set (factors_of count) = {i. 1 \<le> i \<and> i \<le> count \<and> i dvd count}"
  by (auto simp: factors_of_def mod_eq_0_iff_dvd)

lemma py_max_Max: "xs \<noteq> [] \<Longrightarrow> py_max xs = Inr (Max (set xs))"
  by (cases xs) (simp_all add: Max.set_eq_fold [symmetric])

lemma candidates_set:
  "set (filter (\<lambda>f. f \<le> W) (factors_of N)) = {i. 1 \<le> i \<and> i \<le> N \<and> i dvd N \<and> i \<le> W}"
  by (auto simp: set_factors_of)

lemma cpu_to_use_Max:
  assumes "1 \<le> N" "1 \<le> W"
  shows "cpu_to_use W N = Inr (Max {i. 1 \<le> i \<and> i \<le> N \<and> i dvd N \<and> i \<le> W})"
proof -
  have "1 \<in> set (filter (\<lambda>f. f \<le> W) (factors_of N))"
    unfolding candidates_set using assms by simp
  then have "filter (\<lambda>f. f \<le> W) (factors_of N) \<noteq> []"
    by (metis empty_iff empty_set)
  then show ?thesis
    unfolding cpu_to_use_def by (simp add: py_max_Max candidates_set del: set_filter)
qed

lemma cpu_to_use_spec:
  assumes "1 \<le> N" "1 \<le> W"
  obtains d where "cpu_to_use W N = Inr d" "1 \<le> d" "d dvd N" "d \<le> W" "d \<le> N"
    "\<And>e. 1 \<le> e \<Longrightarrow> e dvd N \<Longrightarrow> e \<le> W \<Longrightarrow> e \<le> d"
proof -
  let ?S = "{i. 1 \<le> i \<and> i \<le> N \<and> i dvd N \<and> i \<le> W}"
  have fin: "finite ?S"
    by (rule finite_subset [of _ "{1..N}"]) auto
  have "1 \<in> ?S"
    using assms by simp
  then have ne: "?S \<noteq> {}"
    by blast
  have mem: "Max ?S \<in> ?S"
    using fin ne by (rule Max_in)
  have ub: "e \<le> Max ?S" if "1 \<le> e" "e dvd N" "e \<le> W" for e
  proof -
    have "e \<le> N"
      using that assms by (simp add: zdvd_imp_le)
    then have "e \<in> ?S"
      using that by simp
    then show ?thesis
      using fin by (rule Max_ge [rotated])
  qed
  show thesis
    using that [of "Max ?S"] cpu_to_use_Max [OF assms] mem ub by blast
qed

text \<open>
  C1.  For every channel count \<open>N \<ge> 1\<close> and worker count \<open>W \<ge> 1\<close>, \<^verbatim>\<open>cpu_to_use(W, N)\<close>
  returns (it does not raise) the largest divisor of \<open>N\<close> that does not exceed \<open>W\<close>: the
  returned width divides \<open>N\<close>, is at most \<open>W\<close>, and no positive divisor of \<open>N\<close> that is at
  most \<open>W\<close> is larger; it is 1 when \<open>N\<close> is prime and \<open>W < N\<close>.  For \<open>N = 10\<close> and \<open>W = 4\<close> the
  width is 2 and the plan has 5 chunks.
\<close>

theorem cpu_to_use_largest_divisor:
  "(1 \<le> N \<and> 1 \<le> W \<longrightarrow>
      (\<exists>d. cpu_to_use W N = Inr d \<and> 1 \<le> d \<and> d dvd N \<and> d \<le> W \<and>
           (\<forall>e. 1 \<le> e \<and> e dvd N \<and> e \<le> W \<longrightarrow> e \<le> d) \<and>
           (is_prime N \<and> W < N \<longrightarrow> d = 1)))
   \<and> cpu_to_use 4 10 = Inr 2 \<and> chunk_plan 4 10 = Inr (2, 5)"
proof (intro conjI impI)
  assume a: "1 \<le> N \<and> 1 \<le> W"
  then obtain d where d: "cpu_to_use W N = Inr d" "1 \<le> d" "d dvd N" "d \<le> W" "d \<le> N"
    and mx: "\<And>e. 1 \<le> e \<Longrightarrow> e dvd N \<Longrightarrow> e \<le> W \<Longrightarrow> e \<le> d"
    using cpu_to_use_spec [of N W] by blast
  have "d = 1" if p: "is_prime N" and lt: "W < N"
  proof (rule ccontr)
    assume "d \<noteq> 1"
    then have "d \<in> {2..<N}"
      using d lt by simp
    then show False
      using p d(3) by (auto simp: is_prime_def)
  qed
  then show "\<exists>d. cpu_to_use W N = Inr d \<and> 1 \<le> d \<and> d dvd N \<and> d \<le> W \<and>
           (\<forall>e. 1 \<le> e \<and> e dvd N \<and> e \<le> W \<longrightarrow> e \<le> d) \<and>
           (is_prime N \<and> W < N \<longrightarrow> d = 1)"
    using d mx by blast
next
  show c: "cpu_to_use 4 10 = Inr 2"
    by code_simp
  show "chunk_plan 4 10 = Inr (2, 5)"
    by (simp add: chunk_plan_def c)
qed

theorem cpu_to_use_largest_divisor_witness:
  "(1::int) \<le> 7 \<and> (1::int) \<le> 3 \<and> is_prime 7 \<and> (3::int) < 7 \<and> cpu_to_use 3 7 = Inr 1 \<and>
   cpu_to_use 4 12 = Inr 4 \<and> cpu_to_use 4 10 = Inr 2"
proof -
  have p: "is_prime 7"
    by code_simp
  obtain d where d: "cpu_to_use 3 7 = Inr d" "is_prime 7 \<and> (3::int) < 7 \<longrightarrow> d = 1"
    using cpu_to_use_largest_divisor [of 7 3] by auto
  have "cpu_to_use 4 12 = Inr 4"
    by code_simp
  then show ?thesis
    using p d cpu_to_use_largest_divisor [of 7 3] by simp
qed

lemma py_max_mem: "py_max xs = Inr m \<Longrightarrow> m \<in> set xs"
proof (cases xs)
  case Nil
  assume "py_max xs = Inr m"
  with Nil show ?thesis by simp
next
  case (Cons x ys)
  assume "py_max xs = Inr m"
  with Cons have "m = Max (set (x # ys))"
    by (simp add: Max.set_eq_fold [symmetric])
  moreover have "Max (set (x # ys)) \<in> set (x # ys)"
    by (rule Max_in) simp_all
  ultimately show ?thesis
    using Cons by simp
qed

lemma cpu_to_use_Inr:
  assumes "cpu_to_use W N = Inr w"
  shows "1 \<le> w" "w \<le> N" "w dvd N" "w \<le> W"
  using py_max_mem [OF assms [unfolded cpu_to_use_def]]
  by (simp_all add: set_factors_of)

section \<open>The chunks of a cube\<close>

lemma chunk_ranges_Suc:
  "chunk_ranges (Suc n) w = chunk_ranges n w @ [(n * w, n * w + w)]"
  by (simp add: chunk_ranges_def)

lemma chunk_ranges_tile:
  "concat (map (\<lambda>(s, e). [s..<e]) (chunk_ranges n w)) = [0..<n * w]"
proof (induction n)
  case 0
  show ?case by (simp add: chunk_ranges_def)
next
  case (Suc n)
  have "[0..<n * w + w] = [0..<n * w] @ [n * w..<n * w + w]"
    by (rule upt_add_eq_append) simp
  then show ?case
    using Suc by (simp add: chunk_ranges_Suc add.commute)
qed

lemma chunk_ranges_nth:
  "i < n \<Longrightarrow> chunk_ranges n w ! i = (i * w, (i + 1) * w)"
  by (simp add: chunk_ranges_def)

lemma chunk_ranges_set:
  "(s, e) \<in> set (chunk_ranges n w) \<longleftrightarrow> (\<exists>i < n. s = i * w \<and> e = i * w + w)"
  by (auto simp: chunk_ranges_def)

lemma chunk_in_range:
  assumes "i < N div w" "0 < (w::nat)"
  shows "i * w + w \<le> N"
proof -
  have "Suc i \<le> N div w" using assms by simp
  then have "Suc i * w \<le> (N div w) * w" by (rule mult_le_mono1)
  also have "\<dots> \<le> N" by simp
  finally show ?thesis by (simp add: add.commute)
qed

lemma img_shape_cube_image: "img_shape (cube_image c k) = replicate (shape1 c) (shape2 c)"
  by (simp add: img_shape_def cube_image_def map_replicate_const comp_def)

lemma shape_nan_buffer:
  "map img_shape (nan_buffer w c) = replicate w (replicate (shape1 c) (shape2 c))"
  by (simp add: nan_buffer_def img_shape_def)

lemma shape_cube_slice:
  assumes "stop \<le> shape0 c" "start \<le> stop"
  shows "map img_shape (cube_slice c start stop) = replicate (stop - start) (replicate (shape1 c) (shape2 c))"
  using assms
  by (simp add: cube_slice_def comp_def img_shape_cube_image map_replicate_const min_def)

text \<open>
  What a worker, a pool of workers, a chunk and the chunk loop leave unchanged, and what
  a finished chunk adds to the trace.
\<close>

lemma loads_append: "loads (xs @ ys) = loads xs @ loads ys"
  by (induction xs rule: loads.induct) simp_all

lemma writes_append: "writes (xs @ ys) = writes xs @ writes ys"
  by (induction xs rule: writes.induct) simp_all

lemma wrote_append: "wrote (xs @ ys) = wrote xs @ wrote ys"
  by (induction xs rule: wrote.induct) simp_all

lemma worker_frame:
  assumes "worker L idx start sh = Inr sh'"
  shows "map img_shape (arr_out sh') = map img_shape (arr_out sh)"
    and "arr_in sh' = arr_in sh" and "cubedict sh' = cubedict sh"
proof -
  from assms obtain newim where n: "idx < length (arr_out sh)"
      "img_shape newim = img_shape (arr_out sh ! idx)"
      "sh' = sh\<lparr>arr_out := (arr_out sh)[idx := newim]\<rparr>"
    by (auto simp: worker_def split: if_splits sum.splits)
  have "map img_shape ((arr_out sh)[idx := newim]) = (map img_shape (arr_out sh))[idx := img_shape newim]"
    by (simp add: map_update)
  also have "\<dots> = map img_shape (arr_out sh)"
    using n(1,2) by (simp add: list_update_same_conv)
  finally show "map img_shape (arr_out sh') = map img_shape (arr_out sh)"
    using n(3) by simp
  show "arr_in sh' = arr_in sh" "cubedict sh' = cubedict sh"
    using n(3) by simp_all
qed

lemma pool_map_frame:
  "pool_map L start idxs sh w = (Inr sh', w') \<Longrightarrow>
     map img_shape (arr_out sh') = map img_shape (arr_out sh) \<and> arr_in sh' = arr_in sh \<and>
     cubedict sh' = cubedict sh \<and> wfs w' = wfs w \<and>
     loads (trace w') = loads (trace w) \<and> writes (trace w') = writes (trace w) \<and>
     wrote (trace w') = wrote (trace w)"
proof (induction idxs arbitrary: sh w)
  case Nil
  then show ?case by simp
next
  case (Cons idx idxs)
  from Cons.prems obtain sh1 where s: "worker L idx start sh = Inr sh1"
    and r: "pool_map L start idxs sh1 (emit (Smoothed (start + idx)) w) = (Inr sh', w')"
    by (auto split: sum.splits)
  show ?case
    using Cons.IH [OF r] worker_frame [OF s]
    by (simp add: emit_def loads_append writes_append wrote_append)
qed

lemma do_chunk_frame:
  assumes "do_chunk L c outfile width i sh w = (Inr sh', w')"
  shows "map img_shape (arr_out sh') = map img_shape (arr_out sh)"
    and "map img_shape (arr_in sh') = map img_shape (arr_in sh)"
    and "arr_in sh' = cube_slice c (i * width) (i * width + width)"
    and "cubedict sh' = cubedict sh" and "wfs w' = wfs w"
    and "loads (trace w') = loads (trace w) @ [(i * width, i * width + width)]"
    and "writes (trace w') = writes (trace w) @ [(i * width, i * width + width)]"
    and "wrote (trace w') = wrote (trace w) @ [(outfile, i * width, i * width + width)]"
proof -
  let ?sl = "cube_slice c (i * width) (i * width + width)"
  from assms obtain w1 where a: "map img_shape ?sl = map img_shape (arr_in sh)"
    and p: "pool_map L (i * width) [0..<width] (sh\<lparr>arr_in := ?sl\<rparr>)
              (emit (Loaded (i * width) (i * width + width)) w) = (Inr sh', w1)"
    and w': "w' = emit (Wrote outfile (i * width) (i * width + width) (arr_out sh')) w1"
    by (auto simp: do_chunk_def assign_all_def Let_def split: if_splits sum.splits prod.splits)
  note f = pool_map_frame [OF p]
  show "map img_shape (arr_out sh') = map img_shape (arr_out sh)"
    "map img_shape (arr_in sh') = map img_shape (arr_in sh)"
    "arr_in sh' = ?sl" "cubedict sh' = cubedict sh" "wfs w' = wfs w"
    "loads (trace w') = loads (trace w) @ [(i * width, i * width + width)]"
    "writes (trace w') = writes (trace w) @ [(i * width, i * width + width)]"
    "wrote (trace w') = wrote (trace w) @ [(outfile, i * width, i * width + width)]"
    using f a w' by (simp_all add: emit_def loads_append writes_append wrote_append)
qed

lemma chunk_loop_frame:
  "chunk_loop L c outfile width is sh w = (Inr sh', w') \<Longrightarrow>
     map img_shape (arr_out sh') = map img_shape (arr_out sh) \<and>
     map img_shape (arr_in sh') = map img_shape (arr_in sh) \<and>
     cubedict sh' = cubedict sh \<and> wfs w' = wfs w \<and>
     loads (trace w') = loads (trace w) @ map (\<lambda>i. (i * width, i * width + width)) is \<and>
     writes (trace w') = writes (trace w) @ map (\<lambda>i. (i * width, i * width + width)) is \<and>
     wrote (trace w') = wrote (trace w) @ map (\<lambda>i. (outfile, i * width, i * width + width)) is"
proof (induction "is" arbitrary: sh w)
  case Nil
  then show ?case by simp
next
  case (Cons i rest)
  from Cons.prems obtain sh1 w1 where d: "do_chunk L c outfile width i sh w = (Inr sh1, w1)"
    and r: "chunk_loop L c outfile width rest sh1 w1 = (Inr sh', w')"
    by (auto split: sum.splits prod.splits)
  show ?case
    using Cons.IH [OF r] do_chunk_frame [OF d] by simp
qed

text \<open>The ways in which the body of the loop over the cubes can end.\<close>

lemma process_cube_cases:
  obtains
    (getfacs_fails) e where
      "getfacs L (fst ic) new_beam = Inl e"
      "process_cube L hs ncores od new_beam ic w = (Inl e, w)"
  | (copy_fails) e fs1 where
      "copyfile hs (wfs w) (filename (fst ic)) (outfile_of od (filename (fst ic))) True = (Inl e, fs1)"
      "process_cube L hs ncores od new_beam ic w = (Inl e, w\<lparr>wfs := fs1\<rparr>)"
  | (plan_fails) e d fs1 where
      "copyfile hs (wfs w) (filename (fst ic)) (outfile_of od (filename (fst ic))) True = (Inr d, fs1)"
      "cpu_to_use ncores (int (shape0 (snd ic))) = Inl e"
      "process_cube L hs ncores od new_beam ic w =
         (Inl e, emit (Copied (filename (fst ic)) (outfile_of od (filename (fst ic)))) (w\<lparr>wfs := fs1\<rparr>))"
  | (ran) conbms facs d fs1 wd r w2 where
      "getfacs L (fst ic) new_beam = Inr (conbms, facs)"
      "copyfile hs (wfs w) (filename (fst ic)) (outfile_of od (filename (fst ic))) True = (Inr d, fs1)"
      "cpu_to_use ncores (int (shape0 (snd ic))) = Inr wd"
      "chunk_loop L (snd ic) (outfile_of od (filename (fst ic))) (nat wd)
         [0..<shape0 (snd ic) div nat wd] (cube_shared (nat wd) ic conbms facs)
         (emit (Copied (filename (fst ic)) (outfile_of od (filename (fst ic)))) (w\<lparr>wfs := fs1\<rparr>))
       = (r, w2)"
      "process_cube L hs ncores od new_beam ic w =
         (case r of
            Inl e \<Rightarrow> (Inl e, w2)
          | Inr sh2 \<Rightarrow>
              (case attach_to_header L new_beam of
                 Inl e \<Rightarrow> (Inl e, w2)
               | Inr u \<Rightarrow> (Inr (), emit (HeaderUpdated (outfile_of od (filename (fst ic))) new_beam) w2)))"
proof (cases "getfacs L (fst ic) new_beam")
  case (Inl e)
  then show ?thesis
    using getfacs_fails by (simp add: process_cube_def)
next
  case g: (Inr p)
  obtain conbms facs where p: "p = (conbms, facs)"
    by (cases p)
  obtain rc fs1 where c: "copyfile hs (wfs w) (filename (fst ic)) (outfile_of od (filename (fst ic))) True = (rc, fs1)"
    by (cases "copyfile hs (wfs w) (filename (fst ic)) (outfile_of od (filename (fst ic))) True")
  show ?thesis
  proof (cases rc)
    case (Inl e)
    show ?thesis
      using copy_fails [of e fs1] g p c Inl
      by (simp add: process_cube_def Let_def outfile_of_def)
  next
    case d: (Inr d)
    show ?thesis
    proof (cases "cpu_to_use ncores (int (shape0 (snd ic)))")
      case (Inl e)
      show ?thesis
        using plan_fails [of d fs1 e] g p c d Inl
        by (simp add: process_cube_def Let_def outfile_of_def chunk_plan_def)
    next
      case wd: (Inr wd)
      have w1: "1 \<le> wd"
        using cpu_to_use_Inr [OF wd] by simp
      have n: "nat (int (shape0 (snd ic)) div wd) = shape0 (snd ic) div nat wd"
        using w1 by (simp add: nat_div_distrib)
      obtain r w2 where l:
        "chunk_loop L (snd ic) (outfile_of od (filename (fst ic))) (nat wd)
           [0..<shape0 (snd ic) div nat wd] (cube_shared (nat wd) ic conbms facs)
           (emit (Copied (filename (fst ic)) (outfile_of od (filename (fst ic)))) (w\<lparr>wfs := fs1\<rparr>))
         = (r, w2)"
        by (cases "chunk_loop L (snd ic) (outfile_of od (filename (fst ic))) (nat wd)
           [0..<shape0 (snd ic) div nat wd] (cube_shared (nat wd) ic conbms facs)
           (emit (Copied (filename (fst ic)) (outfile_of od (filename (fst ic)))) (w\<lparr>wfs := fs1\<rparr>))")
      have "process_cube L hs ncores od new_beam ic w =
         (case r of
            Inl e \<Rightarrow> (Inl e, w2)
          | Inr sh2 \<Rightarrow>
              (case attach_to_header L new_beam of
                 Inl e \<Rightarrow> (Inl e, w2)
               | Inr u \<Rightarrow> (Inr (), emit (HeaderUpdated (outfile_of od (filename (fst ic))) new_beam) w2)))"
        using g p c d wd l
        by (cases r; cases "attach_to_header L new_beam")
           (simp_all add: process_cube_def Let_def outfile_of_def chunk_plan_def n cube_shared_def)
      then show ?thesis
        using ran [of conbms facs d fs1 wd r w2] g p c d wd l by simp
    qed
  qed
qed

lemma process_cube_chunks:
  assumes p: "process_cube L hs ncores od new_beam ic w0 = (Inr u, w')"
    and c: "cpu_to_use ncores (int (shape0 (snd ic))) = Inr wd"
  shows "loads (trace w') = loads (trace w0) @ chunk_ranges (shape0 (snd ic) div nat wd) (nat wd)"
    and "writes (trace w') = writes (trace w0) @ chunk_ranges (shape0 (snd ic) div nat wd) (nat wd)"
    and "wrote (trace w') = wrote (trace w0) @
           map (\<lambda>(s, e). (outfile_of od (filename (fst ic)), s, e))
             (chunk_ranges (shape0 (snd ic) div nat wd) (nat wd))"
proof -
  have all: "loads (trace w') = loads (trace w0) @ chunk_ranges (shape0 (snd ic) div nat wd) (nat wd) \<and>
      writes (trace w') = writes (trace w0) @ chunk_ranges (shape0 (snd ic) div nat wd) (nat wd) \<and>
      wrote (trace w') = wrote (trace w0) @
           map (\<lambda>(s, e). (outfile_of od (filename (fst ic)), s, e))
             (chunk_ranges (shape0 (snd ic) div nat wd) (nat wd))"
  proof (cases rule: process_cube_cases
      [where L = L and ic = ic and new_beam = new_beam and hs = hs and w = w0 and od = od
         and ncores = ncores])
    case (getfacs_fails e)
    then show ?thesis using p by simp
  next
    case (copy_fails e fs1)
    then show ?thesis using p by simp
  next
    case (plan_fails e d fs1)
    then show ?thesis using p by simp
  next
    case (ran conbms facs d fs1 wd' r w2)
    have wd': "wd' = wd"
      using ran(3) c by simp
    from ran(5) p obtain sh2 where r: "r = Inr sh2"
      and w': "w' = emit (HeaderUpdated (outfile_of od (filename (fst ic))) new_beam) w2"
      by (cases r; cases "attach_to_header L new_beam") auto
    note f = chunk_loop_frame [OF ran(4) [unfolded r wd']]
    show ?thesis
      using f w'
      by (simp add: emit_def loads_append writes_append wrote_append chunk_ranges_def comp_def)
  qed
  show "loads (trace w') = loads (trace w0) @ chunk_ranges (shape0 (snd ic) div nat wd) (nat wd)"
    "writes (trace w') = writes (trace w0) @ chunk_ranges (shape0 (snd ic) div nat wd) (nat wd)"
    "wrote (trace w') = wrote (trace w0) @
           map (\<lambda>(s, e). (outfile_of od (filename (fst ic)), s, e))
             (chunk_ranges (shape0 (snd ic) div nat wd) (nat wd))"
    using all by simp_all
qed

text \<open>
  C10.  When \<^verbatim>\<open>cpu_to_use(W, N)\<close> returns the width \<open>w\<close> for a cube of \<open>N\<close> channels: the plan
  is \<open>w\<close> and \<open>N // w\<close> chunks, and \<open>w\<close> divides \<open>N\<close>; the loop visits the chunks
  \<open>[i*w, (i+1)*w)\<close> for \<open>i = 0, \<dots>, N // w - 1\<close>, each later chunk starting at or after the
  end of each earlier one; every chunk has width \<open>w\<close> and ends within the cube, and
  together they are \<open>[0, N)\<close> with no overlap and no remainder; the buffers are
  allocated with the shape \<open>[w, height, width]\<close>, every slice loaded into the input
  buffer has this shape (the assignment never fails), and after a finished chunk loop
  both buffers still have it.  A finished run of the chunk loop, and of the whole
  per-cube body, has loaded and written exactly these chunks in this order.
\<close>

theorem chunks_tile_channels:
  assumes "cpu_to_use W (int (shape0 c)) = Inr w"
  shows "let N = shape0 c; wd = nat w; n = N div wd; cs = chunk_ranges n wd;
             bshape = replicate wd (replicate (shape1 c) (shape2 c))
         in chunk_plan W (int N) = Inr (int wd, int n) \<and> 0 < wd \<and> wd dvd N \<and> n * wd = N \<and>
            length cs = n \<and>
            (\<forall>i < n. cs ! i = (i * wd, (i + 1) * wd)) \<and>
            (\<forall>i j. i < j \<and> j < n \<longrightarrow> snd (cs ! i) \<le> fst (cs ! j) \<and> fst (cs ! i) < fst (cs ! j)) \<and>
            (\<forall>(s, e) \<in> set cs. e - s = wd \<and> s < e \<and> e \<le> N) \<and>
            concat (map (\<lambda>(s, e). [s..<e]) cs) = [0..<N] \<and>
            map img_shape (nan_buffer wd c) = bshape \<and>
            (\<forall>(s, e) \<in> set cs. map img_shape (cube_slice c s e) = bshape \<and>
               assign_all (nan_buffer wd c) (cube_slice c s e) = Inr (cube_slice c s e)) \<and>
            (\<forall>L outfile sh w1 sh2 w2.
               map img_shape (arr_in sh) = bshape \<and> map img_shape (arr_out sh) = bshape \<and>
               chunk_loop L c outfile wd [0..<n] sh w1 = (Inr sh2, w2) \<longrightarrow>
               loads (trace w2) = loads (trace w1) @ cs \<and>
               writes (trace w2) = writes (trace w1) @ cs \<and>
               map img_shape (arr_in sh2) = bshape \<and> map img_shape (arr_out sh2) = bshape) \<and>
            (\<forall>L hs od new_beam info w0 w'.
               process_cube L hs W od new_beam (info, c) w0 = (Inr (), w') \<longrightarrow>
               loads (trace w') = loads (trace w0) @ cs \<and>
               writes (trace w') = writes (trace w0) @ cs)"
proof -
  define N where "N = shape0 c"
  define wd where "wd = nat w"
  define n where "n = N div wd"
  define cs where "cs = chunk_ranges n wd"
  define bshape where "bshape = replicate wd (replicate (shape1 c) (shape2 c))"
  note c = assms [folded N_def]
  have w: "1 \<le> w" "w dvd int N" "w \<le> int N"
    using cpu_to_use_Inr [OF c] by simp_all
  have wd: "0 < wd" "int wd = w"
    using w by (simp_all add: wd_def)
  have dv: "wd dvd N"
    using w(2) wd(2) by (metis int_dvd_int_iff)
  then have nw: "n * wd = N"
    by (simp add: n_def)
  have plan: "chunk_plan W (int N) = Inr (int wd, int n)"
    using c wd by (simp add: chunk_plan_def n_def zdiv_int)
  have len: "length cs = n"
    by (simp add: cs_def chunk_ranges_def)
  have nth: "cs ! i = (i * wd, (i + 1) * wd)" if "i < n" for i
    using that by (simp add: cs_def chunk_ranges_nth)
  have ord: "snd (cs ! i) \<le> fst (cs ! j) \<and> fst (cs ! i) < fst (cs ! j)" if "i < j" "j < n" for i j :: nat
  proof -
    have "Suc i \<le> j" using that by simp
    then have "Suc i * wd \<le> j * wd" by (rule mult_le_mono1)
    moreover have "i * wd < j * wd" using that wd by simp
    ultimately show ?thesis
      using that by (simp add: nth)
  qed
  have rng: "e - s = wd \<and> s < e \<and> e \<le> N" if "(s, e) \<in> set cs" for s e
  proof -
    from that obtain i where i: "i < n" "s = i * wd" "e = i * wd + wd"
      by (auto simp: cs_def chunk_ranges_set)
    have "i * wd + wd \<le> N"
      using i(1) wd(1) unfolding n_def by (rule chunk_in_range)
    then show ?thesis
      using i wd by simp
  qed
  have tile: "concat (map (\<lambda>(s, e). [s..<e]) cs) = [0..<N]"
    by (simp add: cs_def chunk_ranges_tile nw)
  have buf: "map img_shape (nan_buffer wd c) = bshape"
    by (simp add: shape_nan_buffer bshape_def)
  have sl: "map img_shape (cube_slice c s e) = bshape \<and>
      assign_all (nan_buffer wd c) (cube_slice c s e) = Inr (cube_slice c s e)"
    if "(s, e) \<in> set cs" for s e
  proof -
    have r: "e - s = wd" "s < e" "e \<le> shape0 c"
      using rng [OF that] by (simp_all add: N_def)
    have "map img_shape (cube_slice c s e) = bshape"
      using r shape_cube_slice [of e c s] by (simp add: bshape_def)
    then show ?thesis
      by (simp add: assign_all_def buf)
  qed
  have run: "loads (trace w2) = loads (trace w1) @ cs \<and>
      writes (trace w2) = writes (trace w1) @ cs \<and>
      map img_shape (arr_in sh2) = bshape \<and> map img_shape (arr_out sh2) = bshape"
    if "map img_shape (arr_in sh) = bshape" "map img_shape (arr_out sh) = bshape"
      "chunk_loop L c outfile wd [0..<n] sh w1 = (Inr sh2, w2)"
    for L outfile sh w1 sh2 w2
    using chunk_loop_frame [OF that(3)] that(1,2)
    by (simp add: cs_def chunk_ranges_def)
  have cube: "loads (trace w') = loads (trace w0) @ cs \<and>
      writes (trace w') = writes (trace w0) @ cs"
    if "process_cube L hs W od new_beam (info, c) w0 = (Inr (), w')"
    for L hs od new_beam info w0 w'
    using process_cube_chunks [OF that] assms
    by (simp add: cs_def n_def N_def wd_def)
  show ?thesis
    unfolding Let_def N_def [symmetric] wd_def [symmetric] n_def [symmetric]
      cs_def [symmetric] bshape_def [symmetric]
  proof (intro conjI)
    show "chunk_plan W (int N) = Inr (int wd, int n)" by (rule plan)
    show "0 < wd" by (rule wd(1))
    show "wd dvd N" by (rule dv)
    show "n * wd = N" by (rule nw)
    show "length cs = n" by (rule len)
    show "\<forall>i<n. cs ! i = (i * wd, (i + 1) * wd)" using nth by blast
    show "\<forall>i j. i < j \<and> j < n \<longrightarrow> snd (cs ! i) \<le> fst (cs ! j) \<and> fst (cs ! i) < fst (cs ! j)"
      using ord by blast
    show "\<forall>(s, e)\<in>set cs. e - s = wd \<and> s < e \<and> e \<le> N" using rng by blast
    show "concat (map (\<lambda>(s, e). [s..<e]) cs) = [0..<N]" by (rule tile)
    show "map img_shape (nan_buffer wd c) = bshape" by (rule buf)
    show "\<forall>(s, e)\<in>set cs. map img_shape (cube_slice c s e) = bshape \<and>
               assign_all (nan_buffer wd c) (cube_slice c s e) = Inr (cube_slice c s e)"
      using sl by blast
    show "\<forall>L outfile sh w1 sh2 w2.
               map img_shape (arr_in sh) = bshape \<and> map img_shape (arr_out sh) = bshape \<and>
               chunk_loop L c outfile wd [0..<n] sh w1 = (Inr sh2, w2) \<longrightarrow>
               loads (trace w2) = loads (trace w1) @ cs \<and>
               writes (trace w2) = writes (trace w1) @ cs \<and>
               map img_shape (arr_in sh2) = bshape \<and> map img_shape (arr_out sh2) = bshape"
      using run by blast
    show "\<forall>L hs od new_beam info w0 w'.
               process_cube L hs W od new_beam (info, c) w0 = (Inr (), w') \<longrightarrow>
               loads (trace w') = loads (trace w0) @ cs \<and>
               writes (trace w') = writes (trace w0) @ cs"
      using cube by blast
  qed
qed

theorem chunks_tile_channels_witness:
  "cpu_to_use 4 (int (shape0 cube_10)) = Inr 2 \<and>
   chunk_plan 4 (int (shape0 cube_10)) = Inr (2, 5) \<and>
   concat (map (\<lambda>(s, e). [s..<e]) (chunk_ranges 5 2)) = [0..<10] \<and>
   fst (process_cube stub_lib True 4 ''.'' example_beam (example_info_10, cube_10) example_world) = Inr () \<and>
   loads (trace (snd (process_cube stub_lib True 4 ''.'' example_beam (example_info_10, cube_10) example_world)))
     = [(0, 2), (2, 4), (4, 6), (6, 8), (8, 10)]"
proof -
  have h: "cpu_to_use 4 (int (shape0 cube_10)) = Inr 2"
    by code_simp
  have r: "fst (process_cube stub_lib True 4 ''.'' example_beam (example_info_10, cube_10) example_world) = Inr ()"
    by code_simp
  have c: "chunk_ranges 5 2 = [(0, 2), (2, 4), (4, 6), (6, 8), (8, 10)]"
    by code_simp
  have n: "shape0 cube_10 = 10"
    by (simp add: cube_10_def)
  note t = chunks_tile_channels [OF h, unfolded Let_def n]
  have p: "chunk_plan 4 (int 10) = Inr (2, 5)"
    using t by simp
  have tile: "concat (map (\<lambda>(s, e). [s..<e]) (chunk_ranges 5 2)) = [0..<10]"
    using t by simp
  obtain w' where w': "process_cube stub_lib True 4 ''.'' example_beam (example_info_10, cube_10) example_world
      = (Inr (), w')"
    using r by (cases "process_cube stub_lib True 4 ''.'' example_beam (example_info_10, cube_10) example_world") simp
  have run: "\<forall>L hs od new_beam info w0 w'.
      process_cube L hs 4 od new_beam (info, cube_10) w0 = (Inr (), w') \<longrightarrow>
      loads (trace w') = loads (trace w0) @ chunk_ranges (10 div nat 2) (nat 2) \<and>
      writes (trace w') = writes (trace w0) @ chunk_ranges (10 div nat 2) (nat 2)"
    using t by (elim conjE)
  have "loads (trace w') = loads (trace example_world) @ chunk_ranges (10 div nat 2) (nat 2)"
    using run w' by blast
  then have "loads (trace w') = [(0, 2), (2, 4), (4, 6), (6, 8), (8, 10)]"
    by (simp add: c example_world_def)
  then show ?thesis
    using h p tile r w' n by simp
qed

section \<open>Undefined kernels\<close>

lemma img_mul_nan_shape: "img_shape (img_mul im x) = img_shape im"
  by (simp add: img_shape_def img_mul_def)

lemma fmul_nan_right: "fmul p NaN = NaN"
  by (cases p) simp_all

lemma img_mul_nan_all: "all_nan (img_mul im NaN)"
  by (auto simp: all_nan_def img_mul_def fmul_nan_right)

text \<open>
  C3.  For every image, when the kernel of the channel is undefined (\<^verbatim>\<open>np.isnan(conbeam)\<close>
  holds), \<^verbatim>\<open>smooth\<close> returns, without raising, an image of the shape of its input in
  which every pixel is NaN.  A worker whose channel \<^verbatim>\<open>start + idx\<close> has such a kernel
  returns without raising and has written exactly that all-NaN image into slice \<^verbatim>\<open>idx\<close>
  of the output buffer; the input buffer and the per-cube record are unchanged.
\<close>

theorem smooth_undefined_kernel_all_nan:
  "(isnan_beam L conbeam \<longrightarrow>
      (\<exists>newim. smooth L img pix_scale conbeam sfactor = Inr newim \<and>
               img_shape newim = img_shape img \<and> all_nan newim))
   \<and> (idx < length (arr_in sh) \<and> idx < length (arr_out sh) \<and>
        start + idx < length (conbeams (cubedict sh)) \<and>
        start + idx < length (sfactors (cubedict sh)) \<and>
        img_shape (arr_out sh ! idx) = img_shape (arr_in sh ! idx) \<and>
        isnan_beam L (conbeams (cubedict sh) ! (start + idx)) \<longrightarrow>
      (\<exists>sh'. worker L idx start sh = Inr sh' \<and>
             arr_out sh' = (arr_out sh)[idx := img_mul (arr_in sh ! idx) NaN] \<and>
             all_nan (arr_out sh' ! idx) \<and>
             img_shape (arr_out sh' ! idx) = img_shape (arr_in sh ! idx) \<and>
             arr_in sh' = arr_in sh \<and> cubedict sh' = cubedict sh))"
  by (auto simp: smooth_def worker_def img_mul_nan_shape img_mul_nan_all)

theorem smooth_undefined_kernel_all_nan_witness:
  "isnan_beam stub_lib nan_beam \<and>
   (\<exists>newim. smooth stub_lib example_image (Val 1) nan_beam (Val 2) = Inr newim \<and>
      img_shape newim = img_shape example_image \<and> all_nan newim) \<and>
   isnan_beam stub_lib (conbeams (cubedict example_shared) ! (2 + 0)) \<and>
   (\<exists>sh'. worker stub_lib 0 2 example_shared = Inr sh' \<and> all_nan (arr_out sh' ! 0) \<and>
      img_shape (arr_out sh' ! 0) = img_shape (arr_in example_shared ! 0))"
proof -
  have h1: "isnan_beam stub_lib nan_beam"
    by (simp add: stub_lib_def nan_beam_def beam_area_def)
  have h2: "0 < length (arr_in example_shared) \<and> 0 < length (arr_out example_shared) \<and>
        2 + 0 < length (conbeams (cubedict example_shared)) \<and>
        2 + 0 < length (sfactors (cubedict example_shared)) \<and>
        img_shape (arr_out example_shared ! 0) = img_shape (arr_in example_shared ! 0) \<and>
        isnan_beam stub_lib (conbeams (cubedict example_shared) ! (2 + 0))"
    by (simp add: example_shared_def example_image_def img_shape_def stub_lib_def nan_beam_def
        beam_area_def)
  note t = smooth_undefined_kernel_all_nan
    [of stub_lib nan_beam example_image "Val 1" "Val 2" 0 example_shared 2]
  have c1: "\<exists>newim. smooth stub_lib example_image (Val 1) nan_beam (Val 2) = Inr newim \<and>
      img_shape newim = img_shape example_image \<and> all_nan newim"
    using t h1 by blast
  have c2: "\<exists>sh'. worker stub_lib 0 2 example_shared = Inr sh' \<and> all_nan (arr_out sh' ! 0) \<and>
      img_shape (arr_out sh' ! 0) = img_shape (arr_in example_shared ! 0)"
    using t h2 by blast
  show ?thesis
    using h1 h2 c1 c2 by blast
qed

section \<open>A beam that cannot be deconvolved\<close>

text \<open>
  \<^verbatim>\<open>getfacs\<close> decides nothing about a channel whose beam cannot be deconvolved: the
  kernel and the factor of a channel are what \<^verbatim>\<open>deconvolve\<close> and \<^verbatim>\<open>gauss_factor\<close> return
  for it, and an exception of either call is the exception of \<^verbatim>\<open>getfacs\<close>.
\<close>

lemma getfacs_loop_forwards_exception:
  "deconvolve L new_beam oldbeam = Inl e \<Longrightarrow>
     getfacs_loop L new_beam dx1 dy1 (oldbeam # rest) = Inl e"
  by simp

lemma getfacs_loop_forwards_result:
  "deconvolve L new_beam oldbeam = Inr conbm \<Longrightarrow>
   gauss_factor L conbm oldbeam dx1 dy1 = Inr fac \<Longrightarrow>
   getfacs_loop L new_beam dx1 dy1 rest = Inr (conbms, facs) \<Longrightarrow>
     getfacs_loop L new_beam dx1 dy1 (oldbeam # rest) = Inr (conbm # conbms, fac # facs)"
  by simp

lemma getfacs_loop_nth:
  "getfacs_loop L nb dx1 dy1 obs = Inr (cs, fs) \<Longrightarrow>
     length cs = length obs \<and> length fs = length obs \<and>
     (\<forall>k < length obs. deconvolve L nb (obs ! k) = Inr (cs ! k))"
proof (induction obs arbitrary: cs fs)
  case Nil
  then show ?case by simp
next
  case (Cons b obs)
  from Cons.prems obtain c f cs' fs' where
    d: "deconvolve L nb b = Inr c" and r: "getfacs_loop L nb dx1 dy1 obs = Inr (cs', fs')"
    and e: "cs = c # cs'" "fs = f # fs'"
    by (auto split: sum.splits prod.splits)
  show ?case
    using Cons.IH [OF r] d e by (auto simp: nth_Cons split: nat.splits)
qed




section \<open>Undefined kernels in a run\<close>

text \<open>
  What a worker writes, what the other workers of the chunk leave of it, and that every
  chunk written has an all-NaN image for each of its channels whose kernel is undefined
  --- for a finished chunk, chunk loop, cube and run, and for one that an exception
  ends.
\<close>

lemma worker_out:
  assumes "worker L idx start sh = Inr sh'"
  obtains newim where
    "smooth L (arr_in sh ! idx) (dy (cubedict sh)) (conbeams (cubedict sh) ! (start + idx))
       (sfactors (cubedict sh) ! (start + idx)) = Inr newim"
    "idx < length (arr_out sh)" "sh' = sh\<lparr>arr_out := (arr_out sh)[idx := newim]\<rparr>"
  using assms by (auto simp: worker_def split: if_splits sum.splits)

lemma worker_nan:
  assumes w: "worker L idx start sh = Inr sh'"
    and n: "isnan_beam L (conbeams (cubedict sh) ! (start + idx))"
  shows "idx < length (arr_out sh') \<and> all_nan (arr_out sh' ! idx)"
proof -
  from w obtain newim where s: "smooth L (arr_in sh ! idx) (dy (cubedict sh))
       (conbeams (cubedict sh) ! (start + idx)) (sfactors (cubedict sh) ! (start + idx)) = Inr newim"
    and i: "idx < length (arr_out sh)" and e: "sh' = sh\<lparr>arr_out := (arr_out sh)[idx := newim]\<rparr>"
    by (rule worker_out)
  have "newim = img_mul (arr_in sh ! idx) NaN"
    using s n by (simp add: smooth_def)
  then show ?thesis
    using i e by (simp add: img_mul_nan_all)
qed

lemma worker_keep:
  assumes "worker L idx start sh = Inr sh'"
  shows "length (arr_out sh') = length (arr_out sh)"
    and "j \<noteq> idx \<Longrightarrow> arr_out sh' ! j = arr_out sh ! j"
  using assms by (auto elim!: worker_out)

lemma pool_map_keep:
  "pool_map L start idxs sh w = (Inr sh', w') \<Longrightarrow>
     length (arr_out sh') = length (arr_out sh) \<and>
     (\<forall>j. j \<notin> set idxs \<longrightarrow> arr_out sh' ! j = arr_out sh ! j)"
proof (induction idxs arbitrary: sh w)
  case Nil
  then show ?case by simp
next
  case (Cons idx idxs)
  from Cons.prems obtain sh1 where s: "worker L idx start sh = Inr sh1"
    and r: "pool_map L start idxs sh1 (emit (Smoothed (start + idx)) w) = (Inr sh', w')"
    by (auto split: sum.splits)
  show ?case
    using Cons.IH [OF r] worker_keep [OF s] by simp
qed

lemma pool_map_nan:
  "pool_map L start idxs sh w = (Inr sh', w') \<Longrightarrow> distinct idxs \<Longrightarrow> idx \<in> set idxs \<Longrightarrow>
   isnan_beam L (conbeams (cubedict sh) ! (start + idx)) \<Longrightarrow>
     idx < length (arr_out sh') \<and> all_nan (arr_out sh' ! idx)"
proof (induction idxs arbitrary: sh w)
  case Nil
  then show ?case by simp
next
  case (Cons i idxs)
  from Cons.prems(1) obtain sh1 where s: "worker L i start sh = Inr sh1"
    and r: "pool_map L start idxs sh1 (emit (Smoothed (start + i)) w) = (Inr sh', w')"
    by (auto split: sum.splits)
  have cd: "cubedict sh1 = cubedict sh"
    by (rule worker_frame(3) [OF s])
  show ?case
  proof (cases "idx = i")
    case True
    have "i \<notin> set idxs"
      using Cons.prems(2) by simp
    then have "arr_out sh' ! i = arr_out sh1 ! i" "length (arr_out sh') = length (arr_out sh1)"
      using pool_map_keep [OF r] by simp_all
    then show ?thesis
      using worker_nan [OF s] Cons.prems(4) True by simp
  next
    case False
    then have "idx \<in> set idxs"
      using Cons.prems(3) by simp
    then show ?thesis
      using Cons.IH [OF r] Cons.prems(2,4) cd by simp
  qed
qed

lemma pool_map_events:
  "pool_map L start idxs sh w = (r, w') \<Longrightarrow> list_all (written_nan bad) (trace w) \<Longrightarrow>
     list_all (written_nan bad) (trace w')"
proof (induction idxs arbitrary: sh w)
  case Nil
  then show ?case by simp
next
  case (Cons idx idxs)
  show ?case
  proof (cases "worker L idx start sh")
    case (Inl e)
    then show ?thesis using Cons.prems by simp
  next
    case (Inr sh1)
    then have r: "pool_map L start idxs sh1 (emit (Smoothed (start + idx)) w) = (r, w')"
      using Cons.prems(1) by simp
    show ?thesis
      using Cons.IH [OF r] Cons.prems(2) by (simp add: emit_def)
  qed
qed

lemma do_chunk_events:
  assumes d: "do_chunk L c outfile width i sh w = (r, w')"
    and t: "list_all (written_nan bad) (trace w)"
    and b: "\<forall>k. bad k \<longrightarrow> isnan_beam L (conbeams (cubedict sh) ! k)"
  shows "list_all (written_nan bad) (trace w')"
proof (cases "assign_all (arr_in sh) (cube_slice c (i * width) (i * width + width))")
  case (Inl e)
  then show ?thesis
    using d t by (simp add: do_chunk_def Let_def)
next
  case (Inr a)
  let ?s = "i * width"
  obtain rp w1 where p: "pool_map L ?s [0..<width] (sh\<lparr>arr_in := a\<rparr>)
      (emit (Loaded ?s (?s + width)) w) = (rp, w1)"
    by (cases "pool_map L ?s [0..<width] (sh\<lparr>arr_in := a\<rparr>) (emit (Loaded ?s (?s + width)) w)")
  have t1: "list_all (written_nan bad) (trace w1)"
    using pool_map_events [OF p] t by (simp add: emit_def)
  show ?thesis
  proof (cases rp)
    case (Inl e)
    then show ?thesis
      using d Inr p t1 by (simp add: do_chunk_def Let_def)
  next
    case sh1: (Inr sh1)
    have w': "w' = emit (Wrote outfile ?s (?s + width) (arr_out sh1)) w1"
      using d Inr p sh1 by (simp add: do_chunk_def Let_def)
    have "k - ?s < length (arr_out sh1) \<and> all_nan (arr_out sh1 ! (k - ?s))"
      if k: "k \<in> set [?s..<?s + width]" "bad k" for k
    proof -
      have "k - ?s \<in> set [0..<width]" "?s + (k - ?s) = k"
        using k(1) by auto
      moreover have "isnan_beam L (conbeams (cubedict (sh\<lparr>arr_in := a\<rparr>)) ! k)"
        using b k(2) by simp
      ultimately show ?thesis
        using pool_map_nan [OF p [unfolded sh1], of "k - ?s"] by simp
    qed
    then have "written_nan bad (Wrote outfile ?s (?s + width) (arr_out sh1))"
      by (simp add: list_all_iff)
    then show ?thesis
      using t1 w' by (simp add: emit_def)
  qed
qed

lemma chunk_loop_events:
  "chunk_loop L c outfile width is sh w = (r, w') \<Longrightarrow> list_all (written_nan bad) (trace w) \<Longrightarrow>
   \<forall>k. bad k \<longrightarrow> isnan_beam L (conbeams (cubedict sh) ! k) \<Longrightarrow>
     list_all (written_nan bad) (trace w')"
proof (induction "is" arbitrary: sh w)
  case Nil
  then show ?case by simp
next
  case (Cons i rest)
  obtain rd w1 where d: "do_chunk L c outfile width i sh w = (rd, w1)"
    by (cases "do_chunk L c outfile width i sh w")
  have t1: "list_all (written_nan bad) (trace w1)"
    by (rule do_chunk_events [OF d Cons.prems(2,3)])
  show ?case
  proof (cases rd)
    case (Inl e)
    then show ?thesis
      using Cons.prems(1) d t1 by simp
  next
    case (Inr sh1)
    have r: "chunk_loop L c outfile width rest sh1 w1 = (r, w')"
      using Cons.prems(1) d Inr by simp
    have cd: "cubedict sh1 = cubedict sh"
      using do_chunk_frame(4) [OF d [unfolded Inr]] .
    show ?thesis
      using Cons.IH [OF r t1] Cons.prems(3) cd by simp
  qed
qed

lemma process_cube_events:
  assumes p: "process_cube L hs ncores od nb ic w = (r, w')"
    and t: "list_all (written_nan bad) (trace w)"
    and lib: "\<forall>c. deconvolve L nb nan_beam = Inr c \<longrightarrow> isnan_beam L c"
    and b: "\<forall>k. bad k \<longrightarrow> k < length (oldbeams (fst ic)) \<and> oldbeams (fst ic) ! k = nan_beam"
  shows "list_all (written_nan bad) (trace w')"
proof (cases rule: process_cube_cases
    [where L = L and ic = ic and new_beam = nb and hs = hs and w = w and od = od
       and ncores = ncores])
  case (getfacs_fails e)
  then show ?thesis using p t by simp
next
  case (copy_fails e fs1)
  then show ?thesis using p t by auto
next
  case (plan_fails e d fs1)
  then show ?thesis using p t by (auto simp: emit_def)
next
  case (ran conbms facs d fs1 wd rl w2)
  have g: "length conbms = length (oldbeams (fst ic)) \<and>
      (\<forall>k < length (oldbeams (fst ic)). deconvolve L nb (oldbeams (fst ic) ! k) = Inr (conbms ! k))"
    using getfacs_loop_nth [OF ran(1) [unfolded getfacs_def]] by simp
  have nan: "\<forall>k. bad k \<longrightarrow>
      isnan_beam L (conbeams (cubedict (cube_shared (nat wd) ic conbms facs)) ! k)"
  proof (intro allI impI)
    fix k assume "bad k"
    then have k: "k < length (oldbeams (fst ic))" "oldbeams (fst ic) ! k = nan_beam"
      using b by simp_all
    then have "deconvolve L nb nan_beam = Inr (conbms ! k)"
      using g by auto
    then show "isnan_beam L (conbeams (cubedict (cube_shared (nat wd) ic conbms facs)) ! k)"
      using lib by (simp add: cube_shared_def)
  qed
  have t0: "list_all (written_nan bad)
      (trace (emit (Copied (filename (fst ic)) (outfile_of od (filename (fst ic)))) (w\<lparr>wfs := fs1\<rparr>)))"
    using t by (simp add: emit_def)
  have t2: "list_all (written_nan bad) (trace w2)"
    by (rule chunk_loop_events [OF ran(4) t0 nan])
  show ?thesis
    using ran(5) p t2
    by (cases rl; cases "attach_to_header L nb") (auto simp: emit_def)
qed

lemma process_cubes_events:
  "process_cubes L hs ncores od nb ics w = (r, w') \<Longrightarrow> list_all (written_nan bad) (trace w) \<Longrightarrow>
   \<forall>c. deconvolve L nb nan_beam = Inr c \<longrightarrow> isnan_beam L c \<Longrightarrow>
   \<forall>ic \<in> set ics. \<forall>k. bad k \<longrightarrow> k < length (oldbeams (fst ic)) \<and> oldbeams (fst ic) ! k = nan_beam \<Longrightarrow>
     list_all (written_nan bad) (trace w')"
proof (induction ics arbitrary: w)
  case Nil
  then show ?case by simp
next
  case (Cons ic ics)
  obtain r1 w1 where p: "process_cube L hs ncores od nb ic w = (r1, w1)"
    by (cases "process_cube L hs ncores od nb ic w")
  have t1: "list_all (written_nan bad) (trace w1)"
    using process_cube_events [OF p Cons.prems(2,3)] Cons.prems(4) by simp
  show ?case
  proof (cases r1)
    case (Inl e)
    then show ?thesis
      using Cons.prems(1) p t1 by simp
  next
    case (Inr u)
    then have r: "process_cubes L hs ncores od nb ics w1 = (r, w')"
      using Cons.prems(1) p by simp
    show ?thesis
      using Cons.IH [OF r t1 Cons.prems(3)] Cons.prems(4) by simp
  qed
qed

lemma process_cube_planned:
  assumes "process_cube L hs ncores od nb ic w = (Inr u, w')"
  shows "\<exists>wd. cpu_to_use ncores (int (shape0 (snd ic))) = Inr wd"
proof (cases rule: process_cube_cases
    [where L = L and ic = ic and new_beam = nb and hs = hs and w = w and od = od
       and ncores = ncores])
  case (getfacs_fails e)
  then show ?thesis using assms by simp
next
  case (copy_fails e fs1)
  then show ?thesis using assms by simp
next
  case (plan_fails e d fs1)
  then show ?thesis using assms by simp
next
  case (ran conbms facs d fs1 wd rl w2)
  then show ?thesis by blast
qed

lemma process_cubes_wrote:
  "process_cubes L hs ncores od nb ics w = (Inr u, w') \<Longrightarrow>
   \<forall>ic \<in> set ics. shape0 (snd ic) = n \<Longrightarrow> cpu_to_use ncores (int n) = Inr wd \<Longrightarrow>
     wrote (trace w') = wrote (trace w) @
       concat (map (\<lambda>ic. map (\<lambda>(s, e). (outfile_of od (filename (fst ic)), s, e))
                           (chunk_ranges (n div nat wd) (nat wd))) ics)"
proof (induction ics arbitrary: w)
  case Nil
  then show ?case by simp
next
  case (Cons ic ics)
  obtain r1 w1 where p: "process_cube L hs ncores od nb ic w = (r1, w1)"
    by (cases "process_cube L hs ncores od nb ic w")
  from Cons.prems(1) p obtain u1 where r1: "r1 = Inr u1"
    and r: "process_cubes L hs ncores od nb ics w1 = (Inr u, w')"
    by (cases r1) auto
  have n: "shape0 (snd ic) = n"
    using Cons.prems(2) by simp
  have "wrote (trace w1) = wrote (trace w) @
      map (\<lambda>(s, e). (outfile_of od (filename (fst ic)), s, e)) (chunk_ranges (n div nat wd) (nat wd))"
    using process_cube_chunks(3) [OF p [unfolded r1]] Cons.prems(3) n by simp
  then show ?case
    using Cons.IH [OF r] Cons.prems(2,3) by simp
qed

lemma prepare_Inr:
  "prepare L a files = Inr (datadict, nb) \<Longrightarrow> \<exists>tm. load_and_mask files = Inr (datadict, tm)"
  by (auto simp: prepare_def split: sum.splits prod.splits)

lemma main_cases:
  obtains
    (outdir_fails) e where "main L hs ms a files fs = (Inl e, \<lparr>wfs = fs, trace = []\<rparr>)"
  | (prepare_fails) e where "prepare L a files = Inl e"
      "main L hs ms a files fs = (Inl e, \<lparr>wfs = fs, trace = []\<rparr>)"
  | (ran) od datadict nb where "fix_outdir (outdir a) = Inr od"
      "prepare L a files = Inr (datadict, nb)"
      "main L hs ms a files fs =
         process_cubes L hs (if mpi a then ms else n_cores a) od nb
           (zip datadict (map cube_of files)) \<lparr>wfs = fs, trace = []\<rparr>"
proof (cases "fix_outdir (outdir a)")
  case (Inl e)
  then show ?thesis
    using outdir_fails by (simp add: main_def Let_def)
next
  case od: (Inr od)
  show ?thesis
  proof (cases "prepare L a files")
    case (Inl e)
    then show ?thesis
      using prepare_fails od by (simp add: main_def Let_def)
  next
    case (Inr p)
    obtain datadict nb where "p = (datadict, nb)" by (cases p)
    then show ?thesis
      using ran [of od datadict nb] od Inr by (simp add: main_def Let_def)
  qed
qed

section \<open>Copying the input file\<close>

text \<open>
  C8.  Where \<^verbatim>\<open>os.path.samefile\<close> exists (every Python 3), \<^verbatim>\<open>copyfile(src, dst)\<close> raises
  \<^verbatim>\<open>SameFileError\<close> exactly when \<^verbatim>\<open>src\<close> and \<^verbatim>\<open>dst\<close> both resolve, and to the same file;
  and when it raises this error the file system is the one it was called with: nothing
  was opened for writing, truncated or written.
\<close>

theorem copyfile_samefile:
  "has_samefile \<Longrightarrow>
     (fst (copyfile has_samefile fs src dst follow_symlinks) = Inl SameFileError
        \<longleftrightarrow> (\<exists>i. inode_of fs src = Some i \<and> inode_of fs dst = Some i))
     \<and> (fst (copyfile has_samefile fs src dst follow_symlinks) = Inl SameFileError
        \<longrightarrow> snd (copyfile has_samefile fs src dst follow_symlinks) = fs)"
  by (auto simp: copyfile_def py_samefile_def os_symlink_def open_rb_def open_wb_def
      split: option.splits sum.splits prod.splits if_splits)

theorem copyfile_samefile_witness:
  "(\<exists>i. inode_of example_fs ''A.fits'' = Some i \<and> inode_of example_fs ''./A.fits'' = Some i) \<and>
   fst (copyfile True example_fs ''A.fits'' ''./A.fits'' True) = Inl SameFileError \<and>
   snd (copyfile True example_fs ''A.fits'' ''./A.fits'' True) = example_fs \<and>
   \<not> (\<exists>i. inode_of example_fs ''A.fits'' = Some i \<and> inode_of example_fs ''./A.sm.fits'' = Some i) \<and>
   fst (copyfile True example_fs ''A.fits'' ''./A.sm.fits'' True) \<noteq> Inl SameFileError"
proof -
  have same: "\<exists>i. inode_of example_fs ''A.fits'' = Some i \<and> inode_of example_fs ''./A.fits'' = Some i"
    by (simp add: example_fs_def)
  have diff: "\<not> (\<exists>i. inode_of example_fs ''A.fits'' = Some i \<and> inode_of example_fs ''./A.sm.fits'' = Some i)"
    by (simp add: example_fs_def)
  note t1 = copyfile_samefile [of True example_fs "''A.fits''" "''./A.fits''" True, OF TrueI]
  note t2 = copyfile_samefile [of True example_fs "''A.fits''" "''./A.sm.fits''" True, OF TrueI]
  show ?thesis
    using same diff t1 t2 by blast
qed

section \<open>The union of the masks\<close>

lemma nonunit_join:
  "bcompat a b \<Longrightarrow> nonunit (insert a (insert b S)) = nonunit (insert (bjoin a b) S)"
  by (auto simp: nonunit_def bcompat_def bjoin_def)

lemma shapes_ok_incompat:
  "\<not> bcompat a b \<Longrightarrow> \<not> shapes_ok (insert a (insert b S))"
  by (auto simp: shapes_ok_def nonunit_def bcompat_def)

lemma shapes_ok_join:
  "bcompat a b \<Longrightarrow> shapes_ok (insert a (insert b S)) = shapes_ok (insert (bjoin a b) S)"
  by (simp add: shapes_ok_def nonunit_join)

lemma blen_join:
  "bcompat a b \<Longrightarrow> blen (insert a (insert b S)) = blen (insert (bjoin a b) S)"
  by (simp add: blen_def nonunit_join)

lemma blen_member:
  assumes "shapes_ok S" "a \<in> S" "a \<noteq> 1"
  shows "blen S = a"
proof -
  have "nonunit S = {a}"
    using assms by (auto simp: shapes_ok_def nonunit_def)
  then show ?thesis
    by (simp add: blen_def)
qed

text \<open>Reading an entry of a sum of two broadcast arrays.\<close>

lemma length_badd: "length (badd v m) = bjoin (length v) (length m)"
  by (simp add: badd_def)

lemma bget_badd:
  assumes "bcompat (length v) (length m)"
    and "bjoin (length v) (length m) = 1 \<or> k < bjoin (length v) (length m)"
  shows "bget (badd v m) k = bget v k + of_bool (bget m k)"
proof (cases "bjoin (length v) (length m) = 1")
  case True
  then have "length v = 1" "length m = 1"
    using assms(1) by (auto simp: bjoin_def bcompat_def split: if_splits)
  then show ?thesis
    using True by (simp add: bget_def badd_def)
next
  case False
  then show ?thesis
    using assms(2) by (simp add: bget_def badd_def)
qed

lemma py_sum_Arr:
  "py_sum (Arr v) ms =
     (if shapes_ok (insert (length v) (length ` set ms))
      then Inr (Arr (map (\<lambda>k. bget v k + sum_list (map (\<lambda>m. of_bool (bget m k)) ms))
                      [0..<blen (insert (length v) (length ` set ms))]))
      else Inl ValueError)"
proof (induction ms arbitrary: v)
  case Nil
  have "nonunit {length v} = (if length v = 1 then {} else {length v})"
    by (auto simp: nonunit_def)
  then have "blen {length v} = length v"
    by (simp add: blen_def)
  moreover have "shapes_ok {length v}"
    by (auto simp: shapes_ok_def nonunit_def)
  moreover have "map (\<lambda>k. bget v k) [0..<length v] = v"
    by (rule nth_equalityI) (auto simp: bget_def)
  ultimately show ?case by simp
next
  case (Cons m ms)
  let ?S = "length ` set ms"
  show ?case
  proof (cases "bcompat (length v) (length m)")
    case False
    then show ?thesis
      using shapes_ok_incompat [OF False, of ?S] by simp
  next
    case True
    let ?j = "bjoin (length v) (length m)"
    have step: "py_sum (Arr v) (m # ms) = py_sum (Arr (badd v m)) ms"
      using True by (simp add: badd_def)
    have ok: "shapes_ok (insert (length v) (insert (length m) ?S)) = shapes_ok (insert ?j ?S)"
      by (rule shapes_ok_join [OF True])
    have bl: "blen (insert (length v) (insert (length m) ?S)) = blen (insert ?j ?S)"
      by (rule blen_join [OF True])
    have ih: "py_sum (Arr v) (m # ms) =
       (if shapes_ok (insert ?j ?S)
        then Inr (Arr (map (\<lambda>k. bget (badd v m) k + sum_list (map (\<lambda>m. of_bool (bget m k)) ms))
                        [0..<blen (insert ?j ?S)]))
        else Inl ValueError)"
      unfolding step Cons.IH length_badd ..
    show ?thesis
    proof (cases "shapes_ok (insert ?j ?S)")
      case False
      then show ?thesis
        using ok by (simp add: ih del: py_sum.simps)
    next
      case ok': True
      have ent: "bget (badd v m) k = bget v k + of_bool (bget m k)"
        if "k < blen (insert ?j ?S)" for k
      proof (rule bget_badd [OF True])
        show "?j = 1 \<or> k < ?j"
        proof (cases "?j = 1")
          case False
          then have "blen (insert ?j ?S) = ?j"
            using ok' by (intro blen_member) simp_all
          then show ?thesis using that by simp
        qed simp
      qed
      have "map (\<lambda>k. bget (badd v m) k + sum_list (map (\<lambda>m. of_bool (bget m k)) ms))
                [0..<blen (insert ?j ?S)]
          = map (\<lambda>k. bget v k + sum_list (map (\<lambda>m. of_bool (bget m k)) (m # ms)))
                [0..<blen (insert ?j ?S)]"
        using ent by (simp add: add.assoc)
      then show ?thesis
        using ok ok' bl by (simp add: ih del: py_sum.simps)
    qed
  qed
qed

lemma sum_list_of_bool_pos:
  "0 < sum_list (map (\<lambda>m. of_bool (P m) :: int) ms) \<longleftrightarrow> (\<exists>m \<in> set ms. P m)"
proof (induction ms)
  case Nil
  show ?case by simp
next
  case (Cons m ms)
  have "0 \<le> sum_list (map (\<lambda>m. of_bool (P m) :: int) ms)"
    by (rule sum_list_nonneg) auto
  then show ?case
    using Cons by (cases "P m") auto
qed

lemma total_mask_Cons:
  "total_mask (m # rest) =
     (if shapes_ok (length ` set (m # rest))
        then Inr (Arr (map (\<lambda>k. \<exists>x \<in> set (m # rest). bget x k) [0..<blen (length ` set (m # rest))]))
      else Inl ValueError)"
proof -
  let ?v = "map (\<lambda>b. of_bool b :: int) m"
  let ?S = "length ` set (m # rest)"
  have S: "insert (length ?v) (length ` set rest) = ?S"
    by simp
  have step: "py_sum (Scalar 0) (m # rest) = py_sum (Arr ?v) rest"
    by simp
  have sum: "py_sum (Scalar 0) (m # rest) =
     (if shapes_ok ?S
      then Inr (Arr (map (\<lambda>k. bget ?v k + sum_list (map (\<lambda>m. of_bool (bget m k)) rest)) [0..<blen ?S]))
      else Inl ValueError)"
    unfolding step py_sum_Arr S ..
  show ?thesis
  proof (cases "shapes_ok ?S")
    case False
    then show ?thesis
      by (simp only: total_mask_def sum if_False sum.case)
  next
    case True
    have g: "bget ?v k = of_bool (bget m k)" if "k < blen ?S" for k
    proof (cases "length m = 1")
      case True
      then show ?thesis by (simp add: bget_def)
    next
      case False
      then have "blen ?S = length m"
        using \<open>shapes_ok ?S\<close> by (intro blen_member) simp_all
      then show ?thesis
        using that False by (simp add: bget_def)
    qed
    have pos: "(0 < bget ?v k + sum_list (map (\<lambda>m. of_bool (bget m k) :: int) rest))
        \<longleftrightarrow> (\<exists>x \<in> set (m # rest). bget x k)" if "k < blen ?S" for k
    proof -
      have "bget ?v k + sum_list (map (\<lambda>m. of_bool (bget m k) :: int) rest)
          = sum_list (map (\<lambda>m. of_bool (bget m k) :: int) (m # rest))"
        using g [OF that] by simp
      then show ?thesis
        by (simp only: sum_list_of_bool_pos)
    qed
    have "total_mask (m # rest) =
        Inr (Arr (map (\<lambda>x. 0 < x)
          (map (\<lambda>k. bget ?v k + sum_list (map (\<lambda>m. of_bool (bget m k)) rest)) [0..<blen ?S])))"
      using True by (simp only: total_mask_def sum if_True sum.case ndarray.case)
    also have "map (\<lambda>x. 0 < x)
          (map (\<lambda>k. bget ?v k + sum_list (map (\<lambda>m. of_bool (bget m k)) rest)) [0..<blen ?S])
        = map (\<lambda>k. \<exists>x \<in> set (m # rest). bget x k) [0..<blen ?S]"
      using pos by (simp del: set_simps list.set)
    finally show ?thesis
      using True by (simp only: if_True)
  qed
qed

lemma total_mask_eq:
  "total_mask ms =
     (if ms = [] then Inr (Scalar False)
      else if shapes_ok (length ` set ms)
        then Inr (Arr (map (\<lambda>k. \<exists>m \<in> set ms. bget m k) [0..<blen (length ` set ms)]))
      else Inl ValueError)"
proof (cases ms)
  case Nil
  then show ?thesis by (simp add: total_mask_def)
next
  case (Cons m rest)
  show ?thesis
    unfolding Cons total_mask_Cons by simp
qed

lemma total_mask_set:
  "set ms = set ms' \<Longrightarrow> total_mask ms = total_mask ms'"
proof -
  assume s: "set ms = set ms'"
  then have "ms = [] \<longleftrightarrow> ms' = []"
    by (metis set_empty)
  then show ?thesis
    by (simp add: total_mask_eq s)
qed

text \<open>
  C9.  The union of the masks is idempotent: for every list of masks, \<^verbatim>\<open>sum(masks) > 0\<close>
  is the same --- the same array, or the same error --- when the whole list is
  aggregated a second time, when every mask is entered twice in a row, and when a
  single mask is entered twice.
\<close>

theorem validity_union_idempotent:
  "total_mask (ms @ ms) = total_mask ms \<and>
   total_mask (concat (map (\<lambda>m. [m, m]) ms)) = total_mask ms \<and>
   total_mask [m, m] = total_mask [m]"
  by (intro conjI total_mask_set) auto

theorem validity_union_idempotent_witness:
  "total_mask ([[False, False, True], [True, False, False]] @ [[False, False, True], [True, False, False]])
     = total_mask [[False, False, True], [True, False, False]] \<and>
   total_mask [[False, False, True], [True, False, False]] = Inr (Arr [True, False, True])"
proof -
  have "total_mask [[False, False, True], [True, False, False]] = Inr (Arr [True, False, True])"
    by code_simp
  then show ?thesis
    using validity_union_idempotent [of "[[False, False, True], [True, False, False]]"] by simp
qed

section \<open>Loading and masking the beam tables\<close>

lemma load_file_eq:
  "load_file f =
     (if length (beamtable f) = 1 then Inl IndexError
      else if has_centre f then Inr (file_info f, beamtable f, length (beamtable f), file_mask f)
      else Inl IndexError)"
  by (simp add: load_file_def central_mask_def getbeams_def file_info_def file_mask_def
      has_centre_def Let_def)

lemma load_files_Inr:
  "load_files files = Inr loaded \<Longrightarrow>
     loaded = map (\<lambda>f. (file_info f, beamtable f, length (beamtable f), file_mask f)) files \<and>
     (\<forall>f \<in> set files. has_centre f \<and> length (beamtable f) \<noteq> 1)"
proof (induction files arbitrary: loaded)
  case Nil
  then show ?case by simp
next
  case (Cons f files)
  from Cons.prems obtain xs where c: "has_centre f" "length (beamtable f) \<noteq> 1"
    and r: "load_files files = Inr xs"
    and l: "loaded = (file_info f, beamtable f, length (beamtable f), file_mask f) # xs"
    by (auto simp: load_file_eq split: if_splits sum.splits)
  show ?case
    using Cons.IH [OF r] c l by simp
qed

lemma load_files_ok:
  "\<forall>f \<in> set files. has_centre f \<and> length (beamtable f) \<noteq> 1 \<Longrightarrow>
     load_files files = Inr (map (\<lambda>f. (file_info f, beamtable f, length (beamtable f), file_mask f)) files)"
  by (induction files) (simp_all add: load_file_eq)

lemma file_mask_centre: "file_mask f = map (centre_flag f) [0..<shape0 (cube_of f)]"
  by (simp add: file_mask_def centre_flag_def)

lemma mask_assign_Arr:
  "length m = length xs \<Longrightarrow>
     mask_assign xs (Arr m) = Inr (map (\<lambda>k. if m ! k then NaN else xs ! k) [0..<length xs])"
  by (auto intro!: nth_equalityI)

lemma mask_table_Arr:
  assumes len: "length m = length tbl"
    and ax: "\<forall>k < length tbl. m ! k \<or> \<not> flt_less (BMAJarcsec (tbl ! k)) (BMINarcsec (tbl ! k))"
  shows "mask_table (Arr m) tbl =
     Inr (map (\<lambda>k. if m ! k then nan_beam else row_beam (tbl ! k)) [0..<length tbl])"
proof -
  let ?majs = "map (\<lambda>k. if m ! k then NaN else map BMAJarcsec tbl ! k) [0..<length tbl]"
  let ?mins = "map (\<lambda>k. if m ! k then NaN else map BMINarcsec tbl ! k) [0..<length tbl]"
  let ?pas = "map (\<lambda>k. if m ! k then NaN else map BPAdeg tbl ! k) [0..<length tbl]"
  have "\<not> flt_less a b" if "(a, b) \<in> set (zip ?majs ?mins)" for a b
  proof -
    from that obtain k where k: "k < length tbl" "a = ?majs ! k" "b = ?mins ! k"
      by (auto simp: set_zip)
    show ?thesis
      using k ax by (cases "m ! k") auto
  qed
  then have ok: "\<not> list_ex (\<lambda>(a, b). flt_less a b) (zip ?majs ?mins)"
    by (auto simp: list_ex_iff)
  have "map (\<lambda>(a, b, c). \<lparr>major = a, minor = b, pa = c\<rparr>) (zip ?majs (zip ?mins ?pas))
        = map (\<lambda>k. if m ! k then nan_beam else row_beam (tbl ! k)) [0..<length tbl]"
    by (rule nth_equalityI) (auto simp: nan_beam_def row_beam_def)
  then have "Beams ?majs ?mins ?pas =
      Inr (map (\<lambda>k. if m ! k then nan_beam else row_beam (tbl ! k)) [0..<length tbl])"
    using ok by (simp add: Beams_def)
  then show ?thesis
    using len by (simp add: mask_table_def mask_assign_Arr del: mask_assign.simps)
qed

lemma mask_tables_Arr:
  "\<forall>p \<in> set ps. length (snd p) = length m \<and>
      (\<forall>k < length m. m ! k \<or> \<not> flt_less (BMAJarcsec (snd p ! k)) (BMINarcsec (snd p ! k))) \<Longrightarrow>
     mask_tables (Arr m) ps =
       Inr (map (\<lambda>p. (fst p)\<lparr>oldbeams :=
              map (\<lambda>k. if m ! k then nan_beam else row_beam (snd p ! k)) [0..<length m]\<rparr>) ps)"
proof (induction ps)
  case Nil
  show ?case by simp
next
  case (Cons p ps)
  obtain info tbl where p: "p = (info, tbl)" by (cases p)
  have l: "length m = length tbl"
    and a: "\<forall>k < length tbl. m ! k \<or> \<not> flt_less (BMAJarcsec (tbl ! k)) (BMINarcsec (tbl ! k))"
    using Cons.prems p by simp_all
  have "mask_table (Arr m) tbl =
     Inr (map (\<lambda>k. if m ! k then nan_beam else row_beam (tbl ! k)) [0..<length tbl])"
    by (rule mask_table_Arr [OF l a])
  then show ?case
    using Cons p l by simp
qed

lemma total_mask_uniform:
  assumes "ms \<noteq> []" "\<forall>m \<in> set ms. length m = n"
  shows "total_mask ms = Inr (Arr (map (\<lambda>k. \<exists>m \<in> set ms. m ! k) [0..<n]))"
proof -
  have S: "length ` set ms = {n}"
    using assms by (cases ms) auto
  have ok: "shapes_ok {n}"
    by (auto simp: shapes_ok_def nonunit_def)
  have "nonunit {n} = (if n = 1 then {} else {n})"
    by (auto simp: nonunit_def)
  then have bl: "blen {n} = n"
    by (simp add: blen_def)
  have "bget m k = m ! k" if "m \<in> set ms" "k < n" for m k
    using that assms(2) by (auto simp: bget_def)
  then have "map (\<lambda>k. \<exists>m \<in> set ms. bget m k) [0..<n] = map (\<lambda>k. \<exists>m \<in> set ms. m ! k) [0..<n]"
    by simp
  then show ?thesis
    using assms(1) by (simp add: total_mask_eq S ok bl)
qed

lemma load_and_mask_wellformed:
  assumes ne: "files \<noteq> []" and n1: "n \<noteq> 1"
    and wf: "\<forall>f \<in> set files. 0 < shape1 (cube_of f) \<and> 0 < shape2 (cube_of f) \<and>
               shape0 (cube_of f) = n \<and> length (beamtable f) = n \<and>
               (\<forall>k < n. (\<exists>g \<in> set files. centre_flag g k) \<or>
                  \<not> flt_less (BMAJarcsec (beamtable f ! k)) (BMINarcsec (beamtable f ! k)))"
  shows "load_and_mask files =
     Inr (map (\<lambda>f. (file_info f)\<lparr>oldbeams := masked_beams files n f\<rparr>) files,
          Arr (map (\<lambda>k. \<exists>f \<in> set files. centre_flag f k) [0..<n]))"
proof -
  let ?loaded = "map (\<lambda>f. (file_info f, beamtable f, length (beamtable f), file_mask f)) files"
  let ?m = "map (\<lambda>k. \<exists>f \<in> set files. centre_flag f k) [0..<n]"
  let ?ps = "zip (map file_info files) (map beamtable files)"
  let ?dd = "map (\<lambda>p. (fst p)\<lparr>oldbeams :=
              map (\<lambda>k. if ?m ! k then nan_beam else row_beam (snd p ! k)) [0..<length ?m]\<rparr>) ?ps"
  have hc: "\<forall>f \<in> set files. has_centre f \<and> length (beamtable f) \<noteq> 1"
    using wf n1 by (simp add: has_centre_def)
  have ld: "load_files files = Inr ?loaded"
    by (rule load_files_ok [OF hc])
  have beams: "map (\<lambda>(info, tbl, nchan, msk). tbl) ?loaded = map beamtable files"
    and nchans: "map (\<lambda>(info, tbl, nchan, msk). nchan) ?loaded = map (\<lambda>f. length (beamtable f)) files"
    and masks: "map (\<lambda>(info, tbl, nchan, msk). msk) ?loaded = map file_mask files"
    and infos: "map (\<lambda>(info, tbl, nchan, msk). info) ?loaded = map file_info files"
    by (simp_all add: comp_def)
  have st: "np_stack (map beamtable files) = Inr (map beamtable files)"
    using wf ne by (simp add: np_stack_def hd_map)
  have "total_mask (map file_mask files) =
      Inr (Arr (map (\<lambda>k. \<exists>m \<in> set (map file_mask files). m ! k) [0..<n]))"
    using ne wf by (intro total_mask_uniform) (simp_all add: file_mask_centre)
  also have "map (\<lambda>k. \<exists>m \<in> set (map file_mask files). m ! k) [0..<n] = ?m"
    using wf by (auto simp: file_mask_centre)
  finally have tm: "total_mask (map file_mask files) = Inr (Arr ?m)" .
  have "\<forall>p \<in> set ?ps. length (snd p) = length ?m \<and>
      (\<forall>k < length ?m. ?m ! k \<or> \<not> flt_less (BMAJarcsec (snd p ! k)) (BMINarcsec (snd p ! k)))"
  proof
    fix p assume "p \<in> set ?ps"
    then obtain i where i: "i < length files" "p = (file_info (files ! i), beamtable (files ! i))"
      by (auto simp: set_zip)
    then have f: "files ! i \<in> set files" "snd p = beamtable (files ! i)"
      by simp_all
    show "length (snd p) = length ?m \<and>
      (\<forall>k < length ?m. ?m ! k \<or> \<not> flt_less (BMAJarcsec (snd p ! k)) (BMINarcsec (snd p ! k)))"
      using wf f by (auto simp del: nth_mem)
  qed
  then have mt: "mask_tables (Arr ?m) ?ps = Inr ?dd"
    by (rule mask_tables_Arr)
  have eq: "\<forall>elem \<in> set (map (\<lambda>f. length (beamtable f)) files).
      elem = hd (map (\<lambda>f. length (beamtable f)) files)"
    using wf ne by (simp add: hd_map)
  have res: "load_and_mask files = Inr (?dd, Arr ?m)"
    unfolding load_and_mask_def Let_def ld sum.case beams nchans masks infos st tm mt
    using ne eq by simp
  have "?dd = map (\<lambda>f. (file_info f)\<lparr>oldbeams := masked_beams files n f\<rparr>) files"
    by (rule nth_equalityI) (simp_all add: masked_beams_def)
  then show ?thesis
    using res by simp
qed

lemma main_masked_output:
  assumes ne: "files \<noteq> []" and n1: "n \<noteq> 1"
    and wf: "\<forall>f \<in> set files. 0 < shape1 (cube_of f) \<and> 0 < shape2 (cube_of f) \<and>
               shape0 (cube_of f) = n \<and> length (beamtable f) = n \<and>
               (\<forall>k < n. (\<exists>g \<in> set files. centre_flag g k) \<or>
                  \<not> flt_less (BMAJarcsec (beamtable f ! k)) (BMINarcsec (beamtable f ! k)))"
    and lib: "\<forall>nb c. deconvolve L nb nan_beam = Inr c \<longrightarrow> isnan_beam L c"
    and m: "main L hs ms a files fs = (r, w)"
  shows "list_all (written_nan (\<lambda>k. k < n \<and> (\<exists>f \<in> set files. centre_flag f k))) (trace w)"
    and "r = Inr () \<Longrightarrow>
      \<exists>od wd. fix_outdir (outdir a) = Inr od \<and>
        cpu_to_use (if mpi a then ms else n_cores a) (int n) = Inr wd \<and>
        wrote (trace w) =
          concat (map (\<lambda>f. map (\<lambda>(s, e). (outfile_of od (fname f), s, e))
                              (chunk_ranges (n div nat wd) (nat wd))) files)"
proof -
  let ?bad = "\<lambda>k. k < n \<and> (\<exists>f \<in> set files. centre_flag f k)"
  let ?dd = "map (\<lambda>f. (file_info f)\<lparr>oldbeams := masked_beams files n f\<rparr>) files"
  let ?ics = "zip ?dd (map cube_of files)"
  let ?nc = "if mpi a then ms else n_cores a"
  note lm = load_and_mask_wellformed [OF ne n1 wf]
  have ics: "?ics = map (\<lambda>f. ((file_info f)\<lparr>oldbeams := masked_beams files n f\<rparr>, cube_of f)) files"
    by (rule nth_equalityI) simp_all
  have old: "\<forall>ic \<in> set ?ics. \<forall>k. ?bad k \<longrightarrow>
      k < length (oldbeams (fst ic)) \<and> oldbeams (fst ic) ! k = nan_beam"
    unfolding ics by (auto simp: masked_beams_def)
  have sh: "\<forall>ic \<in> set ?ics. shape0 (snd ic) = n"
    unfolding ics using wf by auto
  have both: "list_all (written_nan ?bad) (trace w) \<and>
    (r = Inr () \<longrightarrow>
      (\<exists>od wd. fix_outdir (outdir a) = Inr od \<and> cpu_to_use ?nc (int n) = Inr wd \<and>
        wrote (trace w) =
          concat (map (\<lambda>f. map (\<lambda>(s, e). (outfile_of od (fname f), s, e))
                              (chunk_ranges (n div nat wd) (nat wd))) files)))"
  proof (cases rule: main_cases [where L = L and hs = hs and ms = ms and a = a and files = files and fs = fs])
    case (outdir_fails e)
    then show ?thesis using m by auto
  next
    case (prepare_fails e)
    then show ?thesis using m by auto
  next
    case (ran od datadict nb)
    have dd: "datadict = ?dd"
      using prepare_Inr [OF ran(2)] lm by auto
    have p: "process_cubes L hs ?nc od nb ?ics \<lparr>wfs = fs, trace = []\<rparr> = (r, w)"
      using ran(3) m dd by simp
    have ev: "list_all (written_nan ?bad) (trace w)"
      by (rule process_cubes_events [OF p _ _ old]) (use lib in simp_all)
    have cov: "\<exists>od wd. fix_outdir (outdir a) = Inr od \<and> cpu_to_use ?nc (int n) = Inr wd \<and>
        wrote (trace w) =
          concat (map (\<lambda>f. map (\<lambda>(s, e). (outfile_of od (fname f), s, e))
                              (chunk_ranges (n div nat wd) (nat wd))) files)"
      if r: "r = Inr ()"
    proof -
      obtain f fs' where fl: "files = f # fs'"
        using ne by (cases files) auto
      let ?ic = "((file_info f)\<lparr>oldbeams := masked_beams files n f\<rparr>, cube_of f)"
      obtain rest where isq: "?ics = ?ic # rest"
        unfolding ics using fl by simp
      obtain r1 w1 where p1: "process_cube L hs ?nc od nb ?ic \<lparr>wfs = fs, trace = []\<rparr> = (r1, w1)"
        by (cases "process_cube L hs ?nc od nb ?ic \<lparr>wfs = fs, trace = []\<rparr>")
      have "\<exists>u. r1 = Inr u"
        using p [unfolded isq r] p1 by (cases r1) auto
      then obtain u where "process_cube L hs ?nc od nb ?ic \<lparr>wfs = fs, trace = []\<rparr> = (Inr u, w1)"
        using p1 by blast
      from process_cube_planned [OF this] obtain wd where
        "cpu_to_use ?nc (int (shape0 (cube_of f))) = Inr wd"
        by auto
      then have wd: "cpu_to_use ?nc (int n) = Inr wd"
        using wf fl by simp
      have "wrote (trace w) = wrote (trace \<lparr>wfs = fs, trace = []\<rparr>) @
         concat (map (\<lambda>ic. map (\<lambda>(s, e). (outfile_of od (filename (fst ic)), s, e))
                           (chunk_ranges (n div nat wd) (nat wd))) ?ics)"
        by (rule process_cubes_wrote [OF p [unfolded r] sh wd])
      also have "\<dots> = concat (map (\<lambda>f. map (\<lambda>(s, e). (outfile_of od (fname f), s, e))
                              (chunk_ranges (n div nat wd) (nat wd))) files)"
        unfolding ics by (simp add: comp_def file_info_def)
      finally show ?thesis
        using ran(1) wd by blast
    qed
    show ?thesis
      using ev cov by blast
  qed
  show "list_all (written_nan ?bad) (trace w)"
    using both by simp
  show "r = Inr () \<Longrightarrow>
      \<exists>od wd. fix_outdir (outdir a) = Inr od \<and>
        cpu_to_use (if mpi a then ms else n_cores a) (int n) = Inr wd \<and>
        wrote (trace w) =
          concat (map (\<lambda>f. map (\<lambda>(s, e). (outfile_of od (fname f), s, e))
                              (chunk_ranges (n div nat wd) (nat wd))) files)"
    using both by simp
qed

text \<open>
  C5.  Take a non-empty list of cubes that all have \<open>n\<close> channels, a central pixel and a
  beam log of \<open>n\<close> rows (\<open>n\<close> other than 1, for which \<^verbatim>\<open>getbeams\<close> raises), in which no
  unflagged channel has a minor axis greater than its major axis (which the constructor
  of the beam set refuses).  Then the loading and masking of \<^verbatim>\<open>main\<close> returns, and
  \<^item> the mask of the run is, channel by channel, the logical OR over all cubes of the
    cube's flag at its central pixel;
  \<^item> there is one beam set per cube, of \<open>n\<close> beams; in every cube's beam set the beam of
    a channel that is flagged in any cube is the undefined beam (major axis, minor axis
    and position angle NaN), and the beam of every other channel is the row of the
    cube's own beam log;
  \<^item> in every run of \<^verbatim>\<open>main\<close> on these cubes, with a library that deconvolves the
    undefined beam to a kernel that \<^verbatim>\<open>np.isnan\<close> recognises (whenever it returns),
    every chunk written to an output file has an all-NaN image for each of its channels
    that is flagged in any cube; and a run that finishes has written, to the output
    file of every cube in turn, the chunks that tile all \<open>n\<close> channels.
  So a channel flagged missing in one cube is invalid in the beam set and in the output
  of every cube.
\<close>

theorem validity_mask_union_applied:
  assumes ne: "files \<noteq> []" and n1: "n \<noteq> 1"
    and wf: "\<forall>f \<in> set files. 0 < shape1 (cube_of f) \<and> 0 < shape2 (cube_of f) \<and>
               shape0 (cube_of f) = n \<and> length (beamtable f) = n \<and>
               (\<forall>k < n. (\<exists>g \<in> set files. centre_flag g k) \<or>
                  \<not> flt_less (BMAJarcsec (beamtable f ! k)) (BMINarcsec (beamtable f ! k)))"
  shows "\<exists>datadict.
           load_and_mask files =
             Inr (datadict, Arr (map (\<lambda>k. \<exists>f \<in> set files. centre_flag f k) [0..<n])) \<and>
           length datadict = length files \<and>
           (\<forall>i < length files. length (oldbeams (datadict ! i)) = n \<and>
              (\<forall>k < n. oldbeams (datadict ! i) ! k =
                 (if \<exists>f \<in> set files. centre_flag f k then nan_beam
                  else row_beam (beamtable (files ! i) ! k)))) \<and>
           (\<forall>L has_samefile mpi_size a fs r w.
              (\<forall>nb c. deconvolve L nb nan_beam = Inr c \<longrightarrow> isnan_beam L c) \<and>
              main L has_samefile mpi_size a files fs = (r, w) \<longrightarrow>
                list_all (written_nan (\<lambda>k. k < n \<and> (\<exists>f \<in> set files. centre_flag f k))) (trace w) \<and>
                (r = Inr () \<longrightarrow>
                   (\<exists>od wd. fix_outdir (outdir a) = Inr od \<and>
                      cpu_to_use (if mpi a then mpi_size else n_cores a) (int n) = Inr wd \<and>
                      wrote (trace w) =
                        concat (map (\<lambda>f. map (\<lambda>(s, e). (outfile_of od (fname f), s, e))
                                            (chunk_ranges (n div nat wd) (nat wd))) files))))"
proof -
  let ?dd = "map (\<lambda>f. (file_info f)\<lparr>oldbeams := masked_beams files n f\<rparr>) files"
  have l: "load_and_mask files =
      Inr (?dd, Arr (map (\<lambda>k. \<exists>f \<in> set files. centre_flag f k) [0..<n]))"
    by (rule load_and_mask_wellformed [OF ne n1 wf])
  have len: "length ?dd = length files"
    by simp
  have ent: "\<forall>i < length files. length (oldbeams (?dd ! i)) = n \<and>
      (\<forall>k < n. oldbeams (?dd ! i) ! k =
         (if \<exists>f \<in> set files. centre_flag f k then nan_beam
          else row_beam (beamtable (files ! i) ! k)))"
    by (simp add: masked_beams_def)
  have run: "\<forall>L has_samefile mpi_size a fs r w.
      (\<forall>nb c. deconvolve L nb nan_beam = Inr c \<longrightarrow> isnan_beam L c) \<and>
      main L has_samefile mpi_size a files fs = (r, w) \<longrightarrow>
        list_all (written_nan (\<lambda>k. k < n \<and> (\<exists>f \<in> set files. centre_flag f k))) (trace w) \<and>
        (r = Inr () \<longrightarrow>
           (\<exists>od wd. fix_outdir (outdir a) = Inr od \<and>
              cpu_to_use (if mpi a then mpi_size else n_cores a) (int n) = Inr wd \<and>
              wrote (trace w) =
                concat (map (\<lambda>f. map (\<lambda>(s, e). (outfile_of od (fname f), s, e))
                                    (chunk_ranges (n div nat wd) (nat wd))) files)))"
    using main_masked_output [OF ne n1 wf] by blast
  show ?thesis
    using l len ent run by blast
qed

theorem validity_mask_union_applied_witness:
  "[file_A, file_B] \<noteq> [] \<and> (5::nat) \<noteq> 1 \<and>
   0 < shape1 (cube_of file_A) \<and> 0 < shape2 (cube_of file_A) \<and>
   shape0 (cube_of file_A) = 5 \<and> length (beamtable file_A) = 5 \<and>
   0 < shape1 (cube_of file_B) \<and> 0 < shape2 (cube_of file_B) \<and>
   shape0 (cube_of file_B) = 5 \<and> length (beamtable file_B) = 5 \<and>
   centre_flag file_A 2 \<and> \<not> centre_flag file_B 2 \<and>
   (\<exists>datadict. load_and_mask [file_A, file_B] = Inr (datadict, Arr [False, False, True, False, False]) \<and>
      oldbeams (datadict ! 0) ! 2 = nan_beam \<and> oldbeams (datadict ! 1) ! 2 = nan_beam \<and>
      oldbeams (datadict ! 1) ! 3 = example_beam) \<and>
   fst (main stub_lib True 1 example_args [file_A, file_B] example_fs) = Inr () \<and>
   list_all (written_nan (\<lambda>k. k < 5 \<and> (\<exists>f \<in> set [file_A, file_B]. centre_flag f k)))
     (trace (snd (main stub_lib True 1 example_args [file_A, file_B] example_fs))) \<and>
   wrote (trace (snd (main stub_lib True 1 example_args [file_A, file_B] example_fs))) =
     [(''./A.sm.fits'', 0, 1), (''./A.sm.fits'', 1, 2), (''./A.sm.fits'', 2, 3),
      (''./A.sm.fits'', 3, 4), (''./A.sm.fits'', 4, 5),
      (''./B.sm.fits'', 0, 1), (''./B.sm.fits'', 1, 2), (''./B.sm.fits'', 2, 3),
      (''./B.sm.fits'', 3, 4), (''./B.sm.fits'', 4, 5)]"
proof -
  have ne: "[file_A, file_B] \<noteq> []"
    by simp
  have n1: "(5::nat) \<noteq> 1"
    by simp
  have shp: "0 < shape1 (cube_of file_A) \<and> 0 < shape2 (cube_of file_A) \<and>
      shape0 (cube_of file_A) = 5 \<and> length (beamtable file_A) = 5 \<and>
      0 < shape1 (cube_of file_B) \<and> 0 < shape2 (cube_of file_B) \<and>
      shape0 (cube_of file_B) = 5 \<and> length (beamtable file_B) = 5"
    by (simp add: file_A_def file_B_def cube_A_def cube_B_def example_table_def)
  have ax: "\<not> flt_less (BMAJarcsec (example_table ! k)) (BMINarcsec (example_table ! k))"
    if "k < 5" for k
    using that by (simp add: example_table_def)
  have wf: "\<forall>f \<in> set [file_A, file_B]. 0 < shape1 (cube_of f) \<and> 0 < shape2 (cube_of f) \<and>
        shape0 (cube_of f) = 5 \<and> length (beamtable f) = 5 \<and>
        (\<forall>k < 5. (\<exists>g \<in> set [file_A, file_B]. centre_flag g k) \<or>
           \<not> flt_less (BMAJarcsec (beamtable f ! k)) (BMINarcsec (beamtable f ! k)))"
    using shp ax by (simp add: file_A_def file_B_def)
  have fl: "centre_flag file_A 2" "\<not> centre_flag file_B 2"
    by (simp_all add: centre_flag_def file_A_def file_B_def cube_A_def cube_B_def)
  have m: "map (\<lambda>k. \<exists>f \<in> set [file_A, file_B]. centre_flag f k) [0..<5]
      = [False, False, True, False, False]"
    by code_simp
  have r: "row_beam (beamtable ([file_A, file_B] ! 1) ! 3) = example_beam"
    by code_simp
  have f3: "\<not> (\<exists>f \<in> set [file_A, file_B]. centre_flag f 3)"
    by (simp add: centre_flag_def file_A_def file_B_def cube_A_def cube_B_def)
  have lib: "\<forall>nb c. deconvolve stub_lib nb nan_beam = Inr c \<longrightarrow> isnan_beam stub_lib c"
    by (simp add: stub_lib_def rb_deconvolve_def nan_beam_def beam_area_def)
  have run: "fst (main stub_lib True 1 example_args [file_A, file_B] example_fs) = Inr ()"
    by code_simp
  obtain w where w: "main stub_lib True 1 example_args [file_A, file_B] example_fs = (Inr (), w)"
    using run by (cases "main stub_lib True 1 example_args [file_A, file_B] example_fs") simp
  have od: "fix_outdir (outdir example_args) = Inr ''.''"
    by (simp add: fix_outdir_def example_args_def)
  have wd: "cpu_to_use (if mpi example_args then 1 else n_cores example_args) (int 5) = Inr 1"
    by code_simp
  have cr: "chunk_ranges (5 div nat 1) (nat 1) = [(0, 1), (1, 2), (2, 3), (3, 4), (4, 5)]"
    by code_simp
  have oa: "outfile_of ''.'' (fname file_A) = ''./A.sm.fits''"
    and ob: "outfile_of ''.'' (fname file_B) = ''./B.sm.fits''"
    by code_simp+
  from validity_mask_union_applied [OF ne n1 wf] obtain dd where
    l: "load_and_mask [file_A, file_B] =
         Inr (dd, Arr (map (\<lambda>k. \<exists>f \<in> set [file_A, file_B]. centre_flag f k) [0..<5]))"
    and e: "\<forall>i < length [file_A, file_B]. length (oldbeams (dd ! i)) = 5 \<and>
              (\<forall>k < 5. oldbeams (dd ! i) ! k =
                 (if \<exists>f \<in> set [file_A, file_B]. centre_flag f k then nan_beam
                  else row_beam (beamtable ([file_A, file_B] ! i) ! k)))"
    and rn: "\<forall>L has_samefile mpi_size a fs r w.
              (\<forall>nb c. deconvolve L nb nan_beam = Inr c \<longrightarrow> isnan_beam L c) \<and>
              main L has_samefile mpi_size a [file_A, file_B] fs = (r, w) \<longrightarrow>
                list_all (written_nan (\<lambda>k. k < 5 \<and> (\<exists>f \<in> set [file_A, file_B]. centre_flag f k))) (trace w) \<and>
                (r = Inr () \<longrightarrow>
                   (\<exists>od wd. fix_outdir (outdir a) = Inr od \<and>
                      cpu_to_use (if mpi a then mpi_size else n_cores a) (int 5) = Inr wd \<and>
                      wrote (trace w) =
                        concat (map (\<lambda>f. map (\<lambda>(s, e). (outfile_of od (fname f), s, e))
                                            (chunk_ranges (5 div nat wd) (nat wd))) [file_A, file_B])))"
    by blast
  have ent: "oldbeams (dd ! i) ! k =
      (if \<exists>f \<in> set [file_A, file_B]. centre_flag f k then nan_beam
       else row_beam (beamtable ([file_A, file_B] ! i) ! k))"
    if "i < 2" "k < 5" for i k
    using e that by simp
  have e0: "oldbeams (dd ! 0) ! 2 = nan_beam"
    using ent [of 0 2] fl by simp
  have e1: "oldbeams (dd ! 1) ! 2 = nan_beam"
    using ent [of 1 2] fl by simp
  have e3: "oldbeams (dd ! 1) ! 3 = example_beam"
    using ent [of 1 3] f3 r by simp
  from rn [rule_format, of stub_lib True 1 example_args example_fs "Inr ()" w] lib w
  have nanw: "list_all (written_nan (\<lambda>k. k < 5 \<and> (\<exists>f \<in> set [file_A, file_B]. centre_flag f k))) (trace w)"
    and cov: "\<exists>od wd. fix_outdir (outdir example_args) = Inr od \<and>
        cpu_to_use (if mpi example_args then 1 else n_cores example_args) (int 5) = Inr wd \<and>
        wrote (trace w) =
          concat (map (\<lambda>f. map (\<lambda>(s, e). (outfile_of od (fname f), s, e))
                              (chunk_ranges (5 div nat wd) (nat wd))) [file_A, file_B])"
    by blast+
  from cov od wd have "wrote (trace w) =
      concat (map (\<lambda>f. map (\<lambda>(s, e). (outfile_of ''.'' (fname f), s, e))
                          (chunk_ranges (5 div nat 1) (nat 1))) [file_A, file_B])"
    by auto
  then have wr: "wrote (trace w) =
     [(''./A.sm.fits'', 0, 1), (''./A.sm.fits'', 1, 2), (''./A.sm.fits'', 2, 3),
      (''./A.sm.fits'', 3, 4), (''./A.sm.fits'', 4, 5),
      (''./B.sm.fits'', 0, 1), (''./B.sm.fits'', 1, 2), (''./B.sm.fits'', 2, 3),
      (''./B.sm.fits'', 3, 4), (''./B.sm.fits'', 4, 5)]"
    unfolding cr oa ob by (simp add: oa ob)
  have ld: "\<exists>datadict. load_and_mask [file_A, file_B] = Inr (datadict, Arr [False, False, True, False, False]) \<and>
      oldbeams (datadict ! 0) ! 2 = nan_beam \<and> oldbeams (datadict ! 1) ! 2 = nan_beam \<and>
      oldbeams (datadict ! 1) ! 3 = example_beam"
    using l [unfolded m] e0 e1 e3 by blast
  have mw: "fst (main stub_lib True 1 example_args [file_A, file_B] example_fs) = Inr ()"
    "snd (main stub_lib True 1 example_args [file_A, file_B] example_fs) = w"
    using w by simp_all
  show ?thesis
    unfolding mw using ne n1 shp fl ld nanw wr by blast
qed

lemma unequal_counts_fail:
  assumes "\<not> (\<forall>f \<in> set files. length (beamtable f) = length (beamtable (hd files)))"
  shows "\<exists>e. load_and_mask files = Inl e"
proof (cases "load_files files")
  case (Inl e)
  then show ?thesis
    using assms by (auto simp: load_and_mask_def)
next
  case (Inr loaded)
  have ne: "files \<noteq> []"
    using assms by auto
  have l: "loaded = map (\<lambda>f. (file_info f, beamtable f, length (beamtable f), file_mask f)) files"
    using load_files_Inr [OF Inr] by simp
  have b: "map (\<lambda>(info, tbl, nchan, msk). tbl) loaded = map beamtable files"
    by (simp add: l comp_def)
  have "hd (map beamtable files) = beamtable (hd files)"
    using ne by (simp add: hd_map)
  then have "np_stack (map beamtable files) = Inl ValueError"
    using assms by (simp add: np_stack_def)
  then show ?thesis
    using ne by (simp add: load_and_mask_def Inr b Let_def)
qed

text \<open>
  C6.  When the beam logs of the input cubes do not all have the same number of
  channels, the loading and masking of \<^verbatim>\<open>main\<close> ends in an exception, whatever the
  libraries and the arguments are: the target beam is never selected, and every run of
  \<^verbatim>\<open>main\<close> ends in an exception with the file system untouched and no copy, no
  convolution and no write done.
\<close>

theorem unequal_channel_counts_fatal:
  assumes "\<not> (\<forall>f \<in> set files. length (beamtable f) = length (beamtable (hd files)))"
  shows "\<exists>e. load_and_mask files = Inl e \<and> (\<forall>L a. prepare L a files = Inl e) \<and>
           (\<forall>L has_samefile mpi_size a fs.
              \<exists>e'. main L has_samefile mpi_size a files fs = (Inl e', \<lparr>wfs = fs, trace = []\<rparr>))"
proof -
  from unequal_counts_fail [OF assms] obtain e where e: "load_and_mask files = Inl e"
    by blast
  have p: "prepare L a files = Inl e" for L a
    by (simp add: prepare_def e)
  have "\<exists>e'. main L hs ms a files fs = (Inl e', \<lparr>wfs = fs, trace = []\<rparr>)" for L hs ms a fs
    by (cases "fix_outdir (outdir a)") (simp_all add: main_def p Let_def)
  then show ?thesis
    using e p by blast
qed

theorem unequal_channel_counts_fatal_witness:
  "\<not> (\<forall>f \<in> set [file_A, file_short]. length (beamtable f) = length (beamtable (hd [file_A, file_short]))) \<and>
   (\<exists>e. load_and_mask [file_A, file_short] = Inl e) \<and>
   (\<exists>e. main stub_lib True 1 example_args [file_A, file_short] example_fs = (Inl e, example_world))"
proof -
  have h: "\<not> (\<forall>f \<in> set [file_A, file_short].
      length (beamtable f) = length (beamtable (hd [file_A, file_short])))"
    by (simp add: file_A_def file_short_def example_table_def)
  from unequal_channel_counts_fatal [OF h] obtain e where
    l: "load_and_mask [file_A, file_short] = Inl e"
    and m: "\<forall>L has_samefile mpi_size a fs.
              \<exists>e'. main L has_samefile mpi_size a [file_A, file_short] fs = (Inl e', \<lparr>wfs = fs, trace = []\<rparr>)"
    by blast
  have "\<exists>e'. main stub_lib True 1 example_args [file_A, file_short] example_fs = (Inl e', example_world)"
    using m unfolding example_world_def by blast
  then show ?thesis
    using h l by blast
qed

section \<open>The target beam\<close>

lemma flt_less_round_up: "flt_less v m \<Longrightarrow> flt_less v (round_up m 0)"
proof (cases v; cases m)
  fix a b
  assume "flt_less v m" "v = Val a" "m = Val b"
  then have "a < b" by simp
  also have "b \<le> of_int \<lceil>b\<rceil>" by (rule le_of_int_ceiling)
  finally show ?thesis
    using \<open>v = Val a\<close> \<open>m = Val b\<close> by (simp add: round_up_def)
qed simp_all

text \<open>
  What the two checks of lines 282--293 do catch: a request below the major axis of
  \<open>big_beam\<close>, the beam that \<^verbatim>\<open>largest_beam()\<close> returned (rounded up to the next whole
  arcsecond).  The other beams of the data are not looked at.
\<close>

lemma request_below_big_beam_fatal:
  assumes l: "load_and_mask files = Inr (datadict, totalmask)"
    and b: "largest_beam L (concat (map oldbeams datadict)) = Inr big_beam"
    and s: "(bmaj a = Some v \<or> bmin a = Some v) \<and>
            (flt_less v (major big_beam) \<or> flt_less v (round_up (major big_beam) 0))"
  shows "\<exists>e. target_params L a big_beam = Inl e \<and>
             (e = BmajTooSmall \<or> e = BminTooSmall \<or> select_bpa L a big_beam = Inl e) \<and>
             prepare L a files = Inl e \<and>
             (\<forall>has_samefile mpi_size fs.
                \<exists>e'. main L has_samefile mpi_size a files fs = (Inl e', \<lparr>wfs = fs, trace = []\<rparr>))"
proof -
  have small: "flt_less v (round_up (major big_beam) 0)"
    using s flt_less_round_up by blast
  have "\<exists>e. target_params L a big_beam = Inl e \<and>
             (e = BmajTooSmall \<or> e = BminTooSmall \<or> select_bpa L a big_beam = Inl e)"
    using s small
    by (cases "select_bpa L a big_beam"; cases "bmaj a"; cases "bmin a")
       (auto simp: target_params_def select_bmaj_def select_bmin_def)
  then obtain e where e: "target_params L a big_beam = Inl e"
    "e = BmajTooSmall \<or> e = BminTooSmall \<or> select_bpa L a big_beam = Inl e"
    by blast
  have p: "prepare L a files = Inl e"
    by (simp add: prepare_def l b target_beam_def e)
  have "\<exists>e'. main L hs ms a files fs = (Inl e', \<lparr>wfs = fs, trace = []\<rparr>)" for hs ms fs
    by (cases "fix_outdir (outdir a)") (simp_all add: main_def p Let_def)
  then show ?thesis
    using e p by blast
qed

lemma request_at_big_beam_accepted:
  "bmaj a = Some v \<Longrightarrow> \<not> flt_less v (round_up (major big_beam) 0) \<Longrightarrow>
     select_bmaj a big_beam = Inr v"
  "bmin a = Some v \<Longrightarrow> \<not> flt_less v (round_up (major big_beam) 0) \<Longrightarrow>
     select_bmin a big_beam = Inr v"
  by (simp_all add: select_bmaj_def select_bmin_def)

text \<open>
  C4.  A requested axis smaller than the largest valid native major axis is not always
  refused.  \<open>file_W\<close> has a valid channel of 30 by 1 arcseconds; the largest beam by
  area of the run is 12 by 10, so the checks compare the request with 12.  With
  \<^verbatim>\<open>--bmaj 20 --bmin 20\<close> the target beam is built, the first cube is copied, convolved
  and written in full, and the run ends only when \<^verbatim>\<open>getfacs\<close> reaches the channel of 30
  by 1 arcseconds of the second cube and \<^verbatim>\<open>deconvolve\<close> raises.  With a
  \<^verbatim>\<open>deconvolve\<close> that does not raise the run finishes.
\<close>

theorem small_target_beam_not_refused:
  "bmaj example_args = Some (Val 20) \<and> bmin example_args = Some (Val 20) \<and>
   row_beam (beamtable file_W ! 1) = wide_beam \<and>
   \<not> centre_flag file_A 1 \<and> \<not> centre_flag file_W 1 \<and>
   flt_less (Val 20) (major wide_beam) \<and>
   (case prepare stub_lib example_args [file_A, file_W] of
      Inl e \<Rightarrow> None | Inr (datadict, new_beam) \<Rightarrow> Some new_beam) = Some target_20 \<and>
   fst (main stub_lib True 1 example_args [file_A, file_W] example_fs) = Inl BeamError \<and>
   wrote (trace (snd (main stub_lib True 1 example_args [file_A, file_W] example_fs))) =
     [(''./A.sm.fits'', 0, 1), (''./A.sm.fits'', 1, 2), (''./A.sm.fits'', 2, 3),
      (''./A.sm.fits'', 3, 4), (''./A.sm.fits'', 4, 5)] \<and>
   fst (main (stub_lib\<lparr>deconvolve := (\<lambda>new old. Inr new)\<rparr>) True 1 example_args [file_W] example_fs)
     = Inr ()"
proof (intro conjI)
  show "bmaj example_args = Some (Val 20)" "bmin example_args = Some (Val 20)"
    by (simp_all add: example_args_def)
  show "row_beam (beamtable file_W ! 1) = wide_beam"
    by code_simp
  show "\<not> centre_flag file_A 1" "\<not> centre_flag file_W 1"
    by (simp_all add: centre_flag_def file_A_def file_W_def cube_A_def cube_B_def)
  show "flt_less (Val 20) (major wide_beam)"
    by (simp add: wide_beam_def)
  show "(case prepare stub_lib example_args [file_A, file_W] of
      Inl e \<Rightarrow> None | Inr (datadict, new_beam) \<Rightarrow> Some new_beam) = Some target_20"
    by code_simp
  show "fst (main stub_lib True 1 example_args [file_A, file_W] example_fs) = Inl BeamError"
    by code_simp
  show "wrote (trace (snd (main stub_lib True 1 example_args [file_A, file_W] example_fs))) =
     [(''./A.sm.fits'', 0, 1), (''./A.sm.fits'', 1, 2), (''./A.sm.fits'', 2, 3),
      (''./A.sm.fits'', 3, 4), (''./A.sm.fits'', 4, 5)]"
    by code_simp
  show "fst (main (stub_lib\<lparr>deconvolve := (\<lambda>new old. Inr new)\<rparr>) True 1 example_args [file_W] example_fs)
     = Inr ()"
    by code_simp
qed

theorem small_target_beam_not_refused_witness:
  "flt_less (Val 20) (major wide_beam) \<and>
   fst (main stub_lib True 1 example_args [file_A, file_W] example_fs) = Inl BeamError \<and>
   wrote (trace (snd (main stub_lib True 1 example_args [file_A, file_W] example_fs))) \<noteq> []"
proof -
  note t = small_target_beam_not_refused
  have "wrote (trace (snd (main stub_lib True 1 example_args [file_A, file_W] example_fs))) \<noteq> []"
    unfolding t [THEN conjunct2, THEN conjunct2, THEN conjunct2, THEN conjunct2, THEN conjunct2,
      THEN conjunct2, THEN conjunct2, THEN conjunct2, THEN conjunct1]
    by simp
  then show ?thesis
    using t by blast
qed

text \<open>
  C7.  The position angle that the user supplies does not reach the target beam.  With
  \<^verbatim>\<open>--bmaj 20 --bmin 20 --bpa 45\<close> and a largest beam of 12 by 10 arcseconds, the
  constructor is called as \<^verbatim>\<open>Beam(20, 20, 0)\<close>, for every behaviour of the libraries:
  the \<^verbatim>\<open>else\<close> branch that sets \<^verbatim>\<open>bpa = 0*u.deg\<close> is also the branch of a supplied
  \<^verbatim>\<open>bpa\<close>.
\<close>

theorem target_beam_ignores_bpa:
  "bpa example_args = Some (Val 45) \<and>
   target_params L example_args example_beam = Inr (Val 20, Val 20, Val 0) \<and>
   target_beam L example_args example_beam = Beam_new L (Val 20) (Val 20) (Val 0)"
  by (simp add: target_beam_def target_params_def select_bpa_def select_bmaj_def select_bmin_def
      round_up_def example_args_def example_beam_def)

end
